theory Spec2Isabelle
  imports Main "HOL-Library.AList"
begin

section \<open>Route reconciliation of vpc-router (vpcrouter/vpc/__init__.py)\<close>

text \<open>
  A shallow embedding of the module \<^verbatim>\<open>vpcrouter/vpc/__init__.py\<close>. The objects of the
  cloud library are records holding the attributes the module reads. The calls to the
  cloud provider are recorded, in order, in the field \<open>calls\<close> of the state; what the
  provider answers is a parameter (\<open>connection\<close>). Exceptions are values: every function
  that can raise returns \<open>exn + 'a\<close>, and the state reached when the exception is raised
  is returned with it, as the effects made before a Python exception persist.
\<close>

subsection \<open>Exceptions\<close>

text \<open>
  The exception classes the module raises, names in a handler, or provokes by an
  operation of its own (indexing a dict, reading an attribute of \<^verbatim>\<open>None\<close>, indexing a
  list). \<open>StandardError\<close> stands for every other exception of the class
  \<^verbatim>\<open>boto.exception.StandardError\<close>, the provider errors of the cloud library.
\<close>

datatype exn =
    VpcRouteSetError
  | KeyError
  | AttributeError
  | IndexError
  | StandardError
  | NoAuthHandlerFound

text \<open>
  \<^verbatim>\<open>except boto.exception.StandardError\<close>. The module reads \<^verbatim>\<open>e.message\<close>, so it runs
  under Python 2, where the class is the built-in \<^verbatim>\<open>StandardError\<close>: the built-in lookup
  and attribute errors are instances, \<^verbatim>\<open>NoAuthHandlerFound\<close> (derived from \<^verbatim>\<open>Exception\<close>)
  is not. The class \<^verbatim>\<open>VpcRouteSetError\<close> is declared in \<^verbatim>\<open>vpcrouter/errors.py\<close>, which is
  not among the sources: whether it derives from \<^verbatim>\<open>StandardError\<close> is the parameter
  \<open>vpc_error_is_standard\<close>. The parameter is \<open>False\<close> for a class that derives from
  \<^verbatim>\<open>Exception\<close> directly, as the repository declares this one.
\<close>

fun isinstance_StandardError :: "bool \<Rightarrow> exn \<Rightarrow> bool" where
  "isinstance_StandardError vpc_error_is_standard VpcRouteSetError = vpc_error_is_standard"
| "isinstance_StandardError vpc_error_is_standard NoAuthHandlerFound = False"
| "isinstance_StandardError vpc_error_is_standard e = True"

subsection \<open>The objects of the snapshot\<close>

record eni =
  eni_id :: string
  private_ip_address :: "string option"

record ec2_instance =
  inst_id :: string
  inst_vpc_id :: string
  interfaces :: "eni list"

record route =
  destination_cidr_block :: string
  instance_id :: "string option"
  interface_id :: "string option"

record route_table =
  rt_id :: string
  rt_vpc_id :: string
  routes :: "route list"

record vpc =
  vpc_ident :: string

record subnet =
  subnet_id :: string
  subnet_vpc_id :: string

record reservation =
  res_instances :: "ec2_instance list"

text \<open>The dict \<^verbatim>\<open>d\<close> that \<^verbatim>\<open>get_vpc_overview\<close> returns, one field for each key.\<close>

record vpc_info =
  zones :: "string list"
  vpc :: vpc
  subnets :: "subnet list"
  route_tables :: "route_table list"
  instances :: "ec2_instance list"
  instance_by_id :: "string \<rightharpoonup> ec2_instance"

subsection \<open>The provider and the state\<close>

datatype call =
    Connect string
  | GetAllZones
  | GetAllVpcs
  | GetAllSubnets "string option"
  | GetAllRouteTables "string option"
  | GetAllReservations "string option"
  | CreateRoute string string string string
  | ReplaceRoute string string string string
  | DeleteRoute string string
  | Close

text \<open>
  The connection object \<^verbatim>\<open>con\<close>: what each method returns or raises. The three listing
  methods take the value of the filter \<^verbatim>\<open>{"vpc-id" : ...}\<close> they are called with. What a
  route call (\<open>CreateRoute\<close>, \<open>ReplaceRoute\<close>, \<open>DeleteRoute\<close>) returns may depend on all the
  calls made before it; it returns a status the module never reads, or raises.
\<close>

record connection =
  get_all_zones :: "exn + string list"
  get_all_vpcs :: "exn + vpc list"
  get_all_subnets :: "string option \<Rightarrow> exn + subnet list"
  get_all_route_tables :: "string option \<Rightarrow> exn + route_table list"
  get_all_reservations :: "string option \<Rightarrow> exn + reservation list"
  route_call :: "call list \<Rightarrow> call \<Rightarrow> exn + bool"
  close :: "exn + unit"

datatype level = DEBUG | INFO | WARNING | ERROR

text \<open>
  The state the module acts on: the provider calls made so far, the dict
  \<^verbatim>\<open>common.CURRENT_STATE['routes']\<close>, the log (level and the fixed head of the message)
  and the number of random numbers drawn so far.
\<close>

record world =
  calls :: "call list"
  CURRENT_STATE :: "string \<rightharpoonup> string \<times> string \<times> string"
  log :: "(level \<times> string) list"
  draws :: nat

definition logging :: "level \<Rightarrow> string \<Rightarrow> world \<Rightarrow> world" where
  "logging l msg w = w\<lparr>log := log w @ [(l, msg)]\<rparr>"

text \<open>A call of a method of \<^verbatim>\<open>con\<close>: it is recorded whether it returns or raises.\<close>

definition record_call :: "call \<Rightarrow> world \<Rightarrow> world" where
  "record_call c w = w\<lparr>calls := calls w @ [c]\<rparr>"

definition invoke :: "connection \<Rightarrow> call \<Rightarrow> world \<Rightarrow> (exn + bool) \<times> world" where
  "invoke con c w = (route_call con (calls w) c, record_call c w)"

text \<open>Python's truth value of an object that is \<^verbatim>\<open>None\<close> or a string.\<close>

fun truthy :: "string option \<Rightarrow> bool" where
  "truthy None = False"
| "truthy (Some s) = (s \<noteq> [])"

subsection \<open>Lookups in the snapshot\<close>

fun find_emi_by_ip :: "eni list \<Rightarrow> string \<Rightarrow> eni option" where
  "find_emi_by_ip [] ip = None"
| "find_emi_by_ip (eni # enis) ip =
     (if private_ip_address eni = Some ip then Some eni else find_emi_by_ip enis ip)"

fun find_in_instances :: "ec2_instance list \<Rightarrow> string \<Rightarrow> exn + (ec2_instance \<times> eni)" where
  "find_in_instances [] ip = Inl VpcRouteSetError"
| "find_in_instances (i # insts) ip =
     (case find_emi_by_ip (interfaces i) ip of
        Some eni \<Rightarrow> Inr (i, eni)
      | None \<Rightarrow> find_in_instances insts ip)"

definition find_instance_and_emi_by_ip :: "vpc_info \<Rightarrow> string \<Rightarrow> exn + (ec2_instance \<times> eni)" where
  "find_instance_and_emi_by_ip info ip = find_in_instances (instances info) ip"

fun find_eni_of_route :: "eni list \<Rightarrow> string option \<Rightarrow> eni option" where
  "find_eni_of_route [] iface = None"
| "find_eni_of_route (eni # enis) iface =
     (if Some (eni_id eni) = iface then Some eni else find_eni_of_route enis iface)"

text \<open>
  \<^verbatim>\<open>return ipaddr, eni if ipaddr else None\<close>: the interface is returned only with an
  address that is true (neither \<^verbatim>\<open>None\<close> nor empty).
\<close>

definition get_instance_private_ip_from_route ::
    "ec2_instance \<Rightarrow> route \<Rightarrow> string option \<times> eni option" where
  "get_instance_private_ip_from_route inst r =
     (case find_eni_of_route (interfaces inst) (interface_id r) of
        None \<Rightarrow> (None, None)
      | Some eni \<Rightarrow>
          (let ipaddr = private_ip_address eni
           in (ipaddr, if truthy ipaddr then Some eni else None)))"

subsection \<open>The failover selector\<close>

text \<open>
  \<^verbatim>\<open>random.randint(a, b)\<close> returns some integer of \<open>[a, b]\<close>: the model takes the number
  \<open>x\<close> the generator produces and reduces it into the range, so every value of the range
  is returned for some \<open>x\<close> and no other value is. The generator is a parameter
  \<open>rnd\<close> (its \<open>k\<close>-th number); the state counts the draws.
\<close>

definition randint :: "nat \<Rightarrow> nat \<Rightarrow> nat \<Rightarrow> nat" where
  "randint a b x = a + x mod (b + 1 - a)"

definition random_randint :: "(nat \<Rightarrow> nat) \<Rightarrow> nat \<Rightarrow> nat \<Rightarrow> world \<Rightarrow> nat \<times> world" where
  "random_randint rnd a b w = (randint a b (rnd (draws w)), w\<lparr>draws := Suc (draws w)\<rparr>)"

text \<open>
  The \<^verbatim>\<open>while True\<close> loop of \<^verbatim>\<open>_choose_from_hosts\<close>, from the index \<open>i\<close>. An index beyond
  the list raises in Python; a first choice beyond the list is never drawn, and ends
  the model's loop the same way.
\<close>

function choose_loop :: "string list \<Rightarrow> string set \<Rightarrow> nat \<Rightarrow> nat \<Rightarrow> exn + string option" where
  "choose_loop ip_list failed_ips first_choice i =
     (if \<not> (i < length ip_list \<and> first_choice < length ip_list) then Inl IndexError
      else if ip_list ! i \<notin> failed_ips then Inr (Some (ip_list ! i))
      else
        (let i' = (if i + 1 = length ip_list then 0 else i + 1)
         in if i' = first_choice then Inr None
            else choose_loop ip_list failed_ips first_choice i'))"
  by pat_completeness auto
termination
  by (relation "measure (\<lambda>(ip_list, failed_ips, first_choice, i).
        if first_choice \<le> i then length ip_list - i + first_choice else first_choice - i)")
     (auto split: if_splits)

declare choose_loop.simps [simp del]

definition choose_from_hosts ::
    "(nat \<Rightarrow> nat) \<Rightarrow> string list \<Rightarrow> string set \<Rightarrow> world \<Rightarrow> (exn + string option) \<times> world" where
  "choose_from_hosts rnd ip_list failed_ips w =
     (if ip_list = [] then (Inr None, w)
      else
        (case random_randint rnd 0 (length ip_list - 1) w of
           (first_choice, w') \<Rightarrow>
             (choose_loop ip_list failed_ips first_choice first_choice, w')))"

subsection \<open>The mutation dispatcher\<close>

text \<open>
  \<^verbatim>\<open>except VpcRouteSetError as e: logging.error(...)\<close>, around the result of a try block.
  An exception of another class passes through.
\<close>

definition except_VpcRouteSetError ::
    "string \<Rightarrow> (exn + unit) \<times> world \<Rightarrow> (exn + unit) \<times> world" where
  "except_VpcRouteSetError msg r =
     (case r of
        (Inl e, w) \<Rightarrow> if e = VpcRouteSetError then (Inr (), logging ERROR msg w) else (Inl e, w)
      | (Inr u, w) \<Rightarrow> (Inr u, w))"

text \<open>The try block of \<^verbatim>\<open>_check_or_update_route\<close>, with the new host chosen.\<close>

definition check_or_update_route_try ::
    "connection \<Rightarrow> string \<Rightarrow> string \<Rightarrow> route_table \<Rightarrow> vpc_info \<Rightarrow> world \<Rightarrow> (exn + unit) \<times> world" where
  "check_or_update_route_try con dcidr new_addr route_table info w =
     (case find_instance_and_emi_by_ip info new_addr of
        Inl e \<Rightarrow> (Inl e, w)
      | Inr (new_instance, new_eni) \<Rightarrow>
          (case invoke con
                  (ReplaceRoute (rt_id route_table) dcidr (inst_id new_instance) (eni_id new_eni))
                  (logging INFO ''--- route exists already in RT, updating'' w) of
             (Inl e, w') \<Rightarrow> (Inl e, w')
           | (Inr status, w') \<Rightarrow>
               (Inr (), w'\<lparr>CURRENT_STATE := (CURRENT_STATE w')
                            (dcidr \<mapsto> (new_addr, inst_id new_instance, eni_id new_eni))\<rparr>)))"

text \<open>
  \<^verbatim>\<open>_check_or_update_route\<close>. The log message of the first branch reads
  \<^verbatim>\<open>current_eni.id\<close>, which raises when the interface is \<^verbatim>\<open>None\<close>. \<^verbatim>\<open>if not new_addr\<close>
  holds of \<^verbatim>\<open>None\<close> and of an empty address.
\<close>

definition check_or_update_route ::
    "(nat \<Rightarrow> nat) \<Rightarrow> string \<Rightarrow> ec2_instance \<Rightarrow> eni option \<Rightarrow> string option \<Rightarrow> string list \<Rightarrow>
     string set \<Rightarrow> route \<Rightarrow> route_table \<Rightarrow> vpc_info \<Rightarrow> connection \<Rightarrow> world \<Rightarrow> (exn + unit) \<times> world" where
  "check_or_update_route rnd dcidr current_instance current_eni current_ipaddr hosts failed_ips
       r route_table info con w =
     (let current_ipaddr_has_failed =
            (case current_ipaddr of None \<Rightarrow> False | Some a \<Rightarrow> a \<in> failed_ips)
      in if (case current_ipaddr of None \<Rightarrow> False | Some a \<Rightarrow> a \<in> set hosts)
              \<and> \<not> current_ipaddr_has_failed
         then
           (case current_eni of
              None \<Rightarrow> (Inl AttributeError, w)
            | Some e \<Rightarrow> (Inr (), logging INFO ''--- route exists already in RT'' w))
         else
           (case choose_from_hosts rnd hosts failed_ips w of
              (Inl e, w') \<Rightarrow> (Inl e, w')
            | (Inr new_addr, w') \<Rightarrow>
                (case new_addr of
                   None \<Rightarrow> (Inr (), logging WARNING ''--- cannot find available target'' w')
                 | Some a \<Rightarrow>
                     if a = [] then (Inr (), logging WARNING ''--- cannot find available target'' w')
                     else except_VpcRouteSetError ''*** failed to update route in RT''
                            (check_or_update_route_try con dcidr a route_table info w'))))"

text \<open>The try block of \<^verbatim>\<open>_add_new_route\<close>.\<close>

definition add_new_route_try ::
    "(nat \<Rightarrow> nat) \<Rightarrow> string list \<Rightarrow> string set \<Rightarrow> vpc_info \<Rightarrow> connection \<Rightarrow> string \<Rightarrow> string \<Rightarrow>
     world \<Rightarrow> (exn + unit) \<times> world" where
  "add_new_route_try rnd hosts failed_ips info con route_table_id dcidr w =
     (case choose_from_hosts rnd hosts failed_ips w of
        (Inl e, w') \<Rightarrow> (Inl e, w')
      | (Inr new_addr, w') \<Rightarrow>
          (case new_addr of
             None \<Rightarrow> (Inr (), logging WARNING ''--- cannot find available target'' w')
           | Some a \<Rightarrow>
               if a = [] then (Inr (), logging WARNING ''--- cannot find available target'' w')
               else
                 (case find_instance_and_emi_by_ip info a of
                    Inl e \<Rightarrow> (Inl e, w')
                  | Inr (inst, eni) \<Rightarrow>
                      (case invoke con
                              (CreateRoute route_table_id dcidr (inst_id inst) (eni_id eni))
                              (logging INFO ''--- adding route in RT'' w') of
                         (Inl e, w'') \<Rightarrow> (Inl e, w'')
                       | (Inr status, w'') \<Rightarrow>
                           (Inr (), w''\<lparr>CURRENT_STATE := (CURRENT_STATE w'')
                                         (dcidr \<mapsto> (a, inst_id inst, eni_id eni))\<rparr>)))))"

definition add_new_route ::
    "(nat \<Rightarrow> nat) \<Rightarrow> string list \<Rightarrow> string set \<Rightarrow> vpc_info \<Rightarrow> connection \<Rightarrow> string \<Rightarrow> string \<Rightarrow>
     world \<Rightarrow> (exn + unit) \<times> world" where
  "add_new_route rnd hosts failed_ips info con route_table_id dcidr w =
     except_VpcRouteSetError ''*** failed to add route in RT''
       (add_new_route_try rnd hosts failed_ips info con route_table_id dcidr w)"

subsection \<open>The reconciler\<close>

text \<open>
  The dict \<^verbatim>\<open>routes_in_rts\<close> (route table id to the prefixes seen in it) and the route
  spec are association lists; a dict is iterated in the order of the list.
\<close>

type_synonym seen = "(string \<times> string list) list"

type_synonym route_spec = "(string \<times> string list) list"

text \<open>
  The body of the inner loop of the first pass: the route \<open>r\<close> of the table \<open>rt\<close>.
  \<^verbatim>\<open>if hosts\<close> fails for a prefix that is not in the spec and for one with no candidate.
\<close>

definition process_route ::
    "(nat \<Rightarrow> nat) \<Rightarrow> connection \<Rightarrow> vpc_info \<Rightarrow> route_spec \<Rightarrow> string set \<Rightarrow> route_table \<Rightarrow> route \<Rightarrow>
     seen \<Rightarrow> world \<Rightarrow> (exn + seen) \<times> world" where
  "process_route rnd con info route_spec failed_ips rt r routes_in_rts w =
     (let dcidr = destination_cidr_block r;
          routes_in_rts' = AList.map_entry (rt_id rt) (\<lambda>l. l @ [dcidr]) routes_in_rts
      in case instance_id r of
           None \<Rightarrow> (Inr routes_in_rts', w)
         | Some iid \<Rightarrow>
             (case instance_by_id info iid of
                None \<Rightarrow> (Inl KeyError, w)
              | Some inst \<Rightarrow>
                  (case get_instance_private_ip_from_route inst r of
                     (ipaddr, eni) \<Rightarrow>
                       (case map_of route_spec dcidr of
                          Some (h # hs) \<Rightarrow>
                            (case check_or_update_route rnd dcidr inst eni ipaddr (h # hs)
                                    failed_ips r rt info con w of
                               (Inl e, w') \<Rightarrow> (Inl e, w')
                             | (Inr u, w') \<Rightarrow> (Inr routes_in_rts', w'))
                        | _ \<Rightarrow>
                            (case invoke con (DeleteRoute (rt_id rt) dcidr)
                                    (logging INFO ''--- route not in spec, deleting in RT'' w) of
                               (Inl e, w') \<Rightarrow> (Inl e, w')
                             | (Inr status, w') \<Rightarrow>
                                 (Inr routes_in_rts',
                                  w'\<lparr>CURRENT_STATE := (CURRENT_STATE w')(dcidr := None)\<rparr>))))))"

fun process_routes ::
    "(nat \<Rightarrow> nat) \<Rightarrow> connection \<Rightarrow> vpc_info \<Rightarrow> route_spec \<Rightarrow> string set \<Rightarrow> route_table \<Rightarrow>
     route list \<Rightarrow> seen \<Rightarrow> world \<Rightarrow> (exn + seen) \<times> world" where
  "process_routes rnd con info route_spec failed_ips rt [] routes_in_rts w = (Inr routes_in_rts, w)"
| "process_routes rnd con info route_spec failed_ips rt (r # rs) routes_in_rts w =
     (case process_route rnd con info route_spec failed_ips rt r routes_in_rts w of
        (Inl e, w') \<Rightarrow> (Inl e, w')
      | (Inr routes_in_rts', w') \<Rightarrow>
          process_routes rnd con info route_spec failed_ips rt rs routes_in_rts' w')"

fun process_tables ::
    "(nat \<Rightarrow> nat) \<Rightarrow> connection \<Rightarrow> vpc_info \<Rightarrow> route_spec \<Rightarrow> string set \<Rightarrow> route_table list \<Rightarrow>
     seen \<Rightarrow> world \<Rightarrow> (exn + seen) \<times> world" where
  "process_tables rnd con info route_spec failed_ips [] routes_in_rts w = (Inr routes_in_rts, w)"
| "process_tables rnd con info route_spec failed_ips (rt # rts) routes_in_rts w =
     (case process_routes rnd con info route_spec failed_ips rt (routes rt)
             (AList.update (rt_id rt) [] routes_in_rts) w of
        (Inl e, w') \<Rightarrow> (Inl e, w')
      | (Inr routes_in_rts', w') \<Rightarrow>
          process_tables rnd con info route_spec failed_ips rts routes_in_rts' w')"

text \<open>The second pass: the inner loop over \<^verbatim>\<open>routes_in_rts.items()\<close>, then the outer one.\<close>

fun add_in_tables ::
    "(nat \<Rightarrow> nat) \<Rightarrow> connection \<Rightarrow> vpc_info \<Rightarrow> string set \<Rightarrow> string \<Rightarrow> string list \<Rightarrow> seen \<Rightarrow>
     world \<Rightarrow> (exn + unit) \<times> world" where
  "add_in_tables rnd con info failed_ips dcidr hosts [] w = (Inr (), w)"
| "add_in_tables rnd con info failed_ips dcidr hosts ((table_id, dcidr_list) # rest) w =
     (if dcidr \<notin> set dcidr_list then
        (case add_new_route rnd hosts failed_ips info con table_id dcidr w of
           (Inl e, w') \<Rightarrow> (Inl e, w')
         | (Inr u, w') \<Rightarrow> add_in_tables rnd con info failed_ips dcidr hosts rest w')
      else add_in_tables rnd con info failed_ips dcidr hosts rest w)"

fun add_missing_routes ::
    "(nat \<Rightarrow> nat) \<Rightarrow> connection \<Rightarrow> vpc_info \<Rightarrow> string set \<Rightarrow> route_spec \<Rightarrow> seen \<Rightarrow>
     world \<Rightarrow> (exn + unit) \<times> world" where
  "add_missing_routes rnd con info failed_ips [] routes_in_rts w = (Inr (), w)"
| "add_missing_routes rnd con info failed_ips ((dcidr, hosts) # rest) routes_in_rts w =
     (case add_in_tables rnd con info failed_ips dcidr hosts routes_in_rts w of
        (Inl e, w') \<Rightarrow> (Inl e, w')
      | (Inr u, w') \<Rightarrow> add_missing_routes rnd con info failed_ips rest routes_in_rts w')"

definition process_route_spec_config ::
    "(nat \<Rightarrow> nat) \<Rightarrow> connection \<Rightarrow> vpc_info \<Rightarrow> route_spec \<Rightarrow> string set \<Rightarrow> world \<Rightarrow>
     (exn + unit) \<times> world" where
  "process_route_spec_config rnd con info route_spec failed_ips w =
     (case process_tables rnd con info route_spec failed_ips (route_tables info) []
             (logging DEBUG
                (if failed_ips \<noteq> {} then ''Route spec processing. Failed IPs''
                 else ''Route spec processing. No failed IPs.'') w) of
        (Inl e, w') \<Rightarrow> (Inl e, w')
      | (Inr routes_in_rts, w') \<Rightarrow>
          add_missing_routes rnd con info failed_ips route_spec routes_in_rts w')"

subsection \<open>The snapshot builder and the cycle\<close>

text \<open>
  \<^verbatim>\<open>connect_to_region\<close>; \<open>boto_connect\<close> is \<^verbatim>\<open>boto.vpc.connect_to_region\<close>, which returns a
  connection or \<^verbatim>\<open>None\<close>, or raises.
\<close>

definition connect_to_region ::
    "(string \<Rightarrow> exn + connection option) \<Rightarrow> string \<Rightarrow> world \<Rightarrow> (exn + connection) \<times> world" where
  "connect_to_region boto_connect region_name w =
     (let w' = record_call (Connect region_name) (logging DEBUG ''Connecting to AWS region'' w)
      in case boto_connect region_name of
           Inl e \<Rightarrow> (Inl e, w')
         | Inr None \<Rightarrow> (Inl VpcRouteSetError, w')
         | Inr (Some con) \<Rightarrow> (Inr con, w'))"

text \<open>The search for the VPC: the first one, or the first one with the given identifier.\<close>

definition select_vpc :: "vpc list \<Rightarrow> string option \<Rightarrow> exn + vpc" where
  "select_vpc all_vpcs vpc_id =
     (case all_vpcs of
        [] \<Rightarrow> Inl VpcRouteSetError
      | v # vs \<Rightarrow>
          if \<not> truthy vpc_id then Inr v
          else (case find (\<lambda>v. Some (vpc_ident v) = vpc_id) all_vpcs of
                  None \<Rightarrow> Inl VpcRouteSetError
                | Some v' \<Rightarrow> Inr v'))"

definition index_instances :: "ec2_instance list \<Rightarrow> (string \<rightharpoonup> ec2_instance)" where
  "index_instances insts = fold (\<lambda>i m. m(inst_id i \<mapsto> i)) insts Map.empty"

definition get_vpc_overview ::
    "connection \<Rightarrow> string option \<Rightarrow> string \<Rightarrow> world \<Rightarrow> (exn + vpc_info) \<times> world" where
  "get_vpc_overview con vpc_id region_name w =
     (let w1 = record_call GetAllZones (logging DEBUG ''Retrieving information for VPC'' w)
      in case get_all_zones con of
           Inl e \<Rightarrow> (Inl e, w1)
         | Inr zs \<Rightarrow>
  (let w2 = record_call GetAllVpcs w1
   in case get_all_vpcs con of
        Inl e \<Rightarrow> (Inl e, w2)
      | Inr all_vpcs \<Rightarrow>
  (case select_vpc all_vpcs vpc_id of
     Inl e \<Rightarrow> (Inl e, w2)
   | Inr v \<Rightarrow>
  (let vpc_filter = vpc_id;
       w3 = record_call (GetAllSubnets vpc_filter) w2
   in case get_all_subnets con vpc_filter of
        Inl e \<Rightarrow> (Inl e, w3)
      | Inr sns \<Rightarrow>
  (let w4 = record_call (GetAllRouteTables vpc_filter) w3
   in case get_all_route_tables con vpc_filter of
        Inl e \<Rightarrow> (Inl e, w4)
      | Inr rts \<Rightarrow>
  (let w5 = record_call (GetAllReservations vpc_filter) w4
   in case get_all_reservations con vpc_filter of
        Inl e \<Rightarrow> (Inl e, w5)
      | Inr reservations \<Rightarrow>
          (let insts = concat (map res_instances reservations)
           in (Inr \<lparr>zones = zs, vpc = v, subnets = sns, route_tables = rts,
                     instances = insts, instance_by_id = index_instances insts\<rparr>, w5))))))))"

text \<open>The try block of \<^verbatim>\<open>handle_spec\<close>.\<close>

definition handle_spec_try ::
    "(string \<Rightarrow> exn + connection option) \<Rightarrow> (nat \<Rightarrow> nat) \<Rightarrow> string \<Rightarrow> string option \<Rightarrow> route_spec \<Rightarrow>
     string set \<Rightarrow> world \<Rightarrow> (exn + unit) \<times> world" where
  "handle_spec_try boto_connect rnd region_name vpc_id route_spec failed_ips w =
     (case connect_to_region boto_connect region_name w of
        (Inl e, w1) \<Rightarrow> (Inl e, w1)
      | (Inr con, w1) \<Rightarrow>
          (case get_vpc_overview con vpc_id region_name w1 of
             (Inl e, w2) \<Rightarrow> (Inl e, w2)
           | (Inr info, w2) \<Rightarrow>
               (case process_route_spec_config rnd con info route_spec failed_ips w2 of
                  (Inl e, w3) \<Rightarrow> (Inl e, w3)
                | (Inr u, w3) \<Rightarrow>
                    (case close con of
                       Inl e \<Rightarrow> (Inl e, record_call Close w3)
                     | Inr u' \<Rightarrow> (Inr (), record_call Close w3)))))"

text \<open>
  \<^verbatim>\<open>handle_spec\<close>: an empty route spec returns at once; an exception of the try block
  that neither handler catches leaves the function.
\<close>

definition handle_spec ::
    "bool \<Rightarrow> (string \<Rightarrow> exn + connection option) \<Rightarrow> (nat \<Rightarrow> nat) \<Rightarrow> string \<Rightarrow> string option \<Rightarrow>
     route_spec \<Rightarrow> string set \<Rightarrow> world \<Rightarrow> (exn + unit) \<times> world" where
  "handle_spec vpc_error_is_standard boto_connect rnd region_name vpc_id route_spec failed_ips w =
     (if route_spec = [] then (Inr (), logging DEBUG ''handle_spec: No route spec provided'' w)
      else
        (case handle_spec_try boto_connect rnd region_name vpc_id route_spec failed_ips
                (logging DEBUG ''Handle route spec'' w) of
           (Inr u, w') \<Rightarrow> (Inr (), w')
         | (Inl e, w') \<Rightarrow>
             if isinstance_StandardError vpc_error_is_standard e
             then (Inr (), logging WARNING ''vpc-router could not set route'' w')
             else if e = NoAuthHandlerFound
             then (Inr (), logging ERROR ''vpc-router could not authenticate'' w')
             else (Inl e, w')))"

section \<open>Auxiliary definitions and example data\<close>

text \<open>The index the loop of \<^verbatim>\<open>_choose_from_hosts\<close> moves to from \<open>i\<close>, in a list of length \<open>n\<close>.\<close>

definition next_index :: "nat \<Rightarrow> nat \<Rightarrow> nat" where
  "next_index n i = (if i + 1 = n then 0 else i + 1)"

text \<open>The state at process start: no call made, an empty cache, an empty log.\<close>

definition w0 :: world where
  "w0 = \<lparr>calls = [], CURRENT_STATE = Map.empty, log = [], draws = 0\<rparr>"

text \<open>
  Example data: two instances with one interface each, routes to them, a foreign route
  and a route to an instance that is not in the snapshot; a provider whose calls all
  succeed, and one whose route calls all raise a given exception.
\<close>

definition eni_a :: eni where
  "eni_a = \<lparr>eni_id = ''eni-a'', private_ip_address = Some ''10.0.0.5''\<rparr>"

definition eni_b :: eni where
  "eni_b = \<lparr>eni_id = ''eni-b'', private_ip_address = Some ''10.0.0.6''\<rparr>"

definition inst_a :: ec2_instance where
  "inst_a = \<lparr>inst_id = ''i-a'', inst_vpc_id = ''vpc-1'', interfaces = [eni_a]\<rparr>"

definition inst_b :: ec2_instance where
  "inst_b = \<lparr>inst_id = ''i-b'', inst_vpc_id = ''vpc-1'', interfaces = [eni_b]\<rparr>"

definition route_to_a :: route where
  "route_to_a = \<lparr>destination_cidr_block = ''10.0.1.0/24'', instance_id = Some ''i-a'',
                  interface_id = Some ''eni-a''\<rparr>"

definition route_old :: route where
  "route_old = \<lparr>destination_cidr_block = ''10.0.2.0/24'', instance_id = Some ''i-b'',
                 interface_id = Some ''eni-b''\<rparr>"

definition route_older :: route where
  "route_older = \<lparr>destination_cidr_block = ''10.0.4.0/24'', instance_id = Some ''i-b'',
                   interface_id = Some ''eni-b''\<rparr>"

definition route_gone :: route where
  "route_gone = \<lparr>destination_cidr_block = ''10.0.3.0/24'', instance_id = Some ''i-gone'',
                  interface_id = Some ''eni-gone''\<rparr>"

definition route_foreign :: route where
  "route_foreign = \<lparr>destination_cidr_block = ''10.0.1.0/24'', instance_id = None,
                     interface_id = None\<rparr>"

definition table1 :: "route list \<Rightarrow> route_table" where
  "table1 rs = \<lparr>rt_id = ''rt-1'', rt_vpc_id = ''vpc-1'', routes = rs\<rparr>"

definition snapshot :: "route_table list \<Rightarrow> vpc_info" where
  "snapshot rts = \<lparr>zones = [], vpc = \<lparr>vpc_ident = ''vpc-1''\<rparr>, subnets = [],
                    route_tables = rts, instances = [inst_a, inst_b],
                    instance_by_id = index_instances [inst_a, inst_b]\<rparr>"

definition con_raising :: "(call \<Rightarrow> exn option) \<Rightarrow> connection" where
  "con_raising raises =
     \<lparr>get_all_zones = Inr [], get_all_vpcs = Inr [], get_all_subnets = (\<lambda>f. Inr []),
      get_all_route_tables = (\<lambda>f. Inr []), get_all_reservations = (\<lambda>f. Inr []),
      route_call = (\<lambda>history c. case raises c of None \<Rightarrow> Inr True | Some e \<Rightarrow> Inl e),
      close = Inr ()\<rparr>"

definition con_ok :: connection where
  "con_ok = con_raising (\<lambda>c. None)"

text \<open>A provider with two VPCs that answers a listing with no VPC identifier in full.\<close>

definition inst_c :: ec2_instance where
  "inst_c = \<lparr>inst_id = ''i-c'', inst_vpc_id = ''vpc-2'', interfaces = []\<rparr>"

definition table2 :: route_table where
  "table2 = \<lparr>rt_id = ''rt-2'', rt_vpc_id = ''vpc-2'', routes = []\<rparr>"

definition con_two_vpcs :: connection where
  "con_two_vpcs =
     \<lparr>get_all_zones = Inr [''zone-a''],
      get_all_vpcs = Inr [\<lparr>vpc_ident = ''vpc-1''\<rparr>, \<lparr>vpc_ident = ''vpc-2''\<rparr>],
      get_all_subnets = (\<lambda>f. Inr (filter (\<lambda>s. f = None \<or> f = Some (subnet_vpc_id s))
         [\<lparr>subnet_id = ''subnet-1'', subnet_vpc_id = ''vpc-1''\<rparr>,
          \<lparr>subnet_id = ''subnet-2'', subnet_vpc_id = ''vpc-2''\<rparr>])),
      get_all_route_tables = (\<lambda>f. Inr (filter (\<lambda>t. f = None \<or> f = Some (rt_vpc_id t))
         [table1 [], table2])),
      get_all_reservations = (\<lambda>f. Inr
         [\<lparr>res_instances = filter (\<lambda>i. f = None \<or> f = Some (inst_vpc_id i)) [inst_a, inst_c]\<rparr>]),
      route_call = (\<lambda>history c. Inr True),
      close = Inr ()\<rparr>"

text \<open>A route spec with one prefix, and a provider whose delete call raises \<open>e\<close>.\<close>

definition spec1 :: route_spec where
  "spec1 = [(''10.0.1.0/24'', [''10.0.0.6''])]"

definition con_delete_fails :: "exn \<Rightarrow> connection" where
  "con_delete_fails e =
     con_raising (\<lambda>c. case c of DeleteRoute t p \<Rightarrow> Some e | _ \<Rightarrow> None)"

text \<open>
  The route table and the prefix a route call acts on; the calls made from one state to
  a later one all satisfy a predicate.
\<close>

fun route_key :: "call \<Rightarrow> (string \<times> string) option" where
  "route_key (CreateRoute t p i e) = Some (t, p)"
| "route_key (ReplaceRoute t p i e) = Some (t, p)"
| "route_key (DeleteRoute t p) = Some (t, p)"
| "route_key c = None"

definition makes_calls :: "(call \<Rightarrow> bool) \<Rightarrow> world \<Rightarrow> world \<Rightarrow> bool" where
  "makes_calls P w w' \<longleftrightarrow> (\<exists>cs. calls w' = calls w @ cs \<and> (\<forall>c \<in> set cs. P c))"

text \<open>
  The pairs of a route table and a prefix of the route spec that the first pass has not
  recorded as seen, in the order of the second pass; and a create call for such a pair
  whose target is the instance and interface of a candidate that has not failed.
\<close>

definition missing_pairs :: "route_spec \<Rightarrow> seen \<Rightarrow> (string \<times> string) list" where
  "missing_pairs route_spec routes_in_rts =
     concat (map (\<lambda>(p, hosts). map (\<lambda>(t, l). (t, p)) (filter (\<lambda>(t, l). p \<notin> set l) routes_in_rts))
                 route_spec)"

definition creates_for :: "vpc_info \<Rightarrow> string set \<Rightarrow> string list \<Rightarrow> call \<Rightarrow> string \<times> string \<Rightarrow> bool" where
  "creates_for info failed_ips hosts c tp \<longleftrightarrow>
     (\<exists>a i e. a \<in> set hosts \<and> a \<notin> failed_ips \<and> find_instance_and_emi_by_ip info a = Inr (i, e)
        \<and> c = CreateRoute (fst tp) (snd tp) (inst_id i) (eni_id e))"

text \<open>Further route specs.\<close>

definition spec2 :: route_spec where
  "spec2 = [(''10.0.1.0/24'', [''10.0.0.6'']), (''10.0.5.0/24'', [''10.0.0.5''])]"

definition spec3 :: route_spec where
  "spec3 = [(''10.0.1.0/24'', [''10.0.0.5'', ''10.0.0.6''])]"

section \<open>Properties\<close>

text \<open>The definitions unfolded to run the model on the example data.\<close>

lemmas example_defs = snapshot_def table1_def inst_a_def inst_b_def eni_a_def eni_b_def
  index_instances_def con_ok_def con_raising_def w0_def

lemmas run_defs = process_route_spec_config_def process_route_def check_or_update_route_def
  check_or_update_route_try_def add_new_route_def add_new_route_try_def except_VpcRouteSetError_def
  choose_from_hosts_def random_randint_def randint_def choose_loop.simps
  get_instance_private_ip_from_route_def find_instance_and_emi_by_ip_def invoke_def
  record_call_def logging_def Let_def

subsection \<open>The failover selector\<close>

lemma choose_loop_found:
  "i < length l \<Longrightarrow> fc < length l \<Longrightarrow> l ! i \<notin> f \<Longrightarrow> choose_loop l f fc i = Inr (Some (l ! i))"
  by (subst choose_loop.simps) simp

lemma choose_loop_stop:
  "i < length l \<Longrightarrow> fc < length l \<Longrightarrow> l ! i \<in> f \<Longrightarrow> next_index (length l) i = fc \<Longrightarrow>
   choose_loop l f fc i = Inr None"
  by (subst choose_loop.simps) (simp add: next_index_def)

lemma choose_loop_step:
  "i < length l \<Longrightarrow> fc < length l \<Longrightarrow> l ! i \<in> f \<Longrightarrow> next_index (length l) i \<noteq> fc \<Longrightarrow>
   choose_loop l f fc i = choose_loop l f fc (next_index (length l) i)"
  by (subst choose_loop.simps) (simp add: next_index_def Let_def)

lemma next_index_less: "i < n \<Longrightarrow> next_index n i < n"
  by (auto simp: next_index_def)

lemma choose_loop_in_range_induct [consumes 2, case_names found stop step]:
  assumes "i < length l" "fc < length l"
    and found: "\<And>i. i < length l \<Longrightarrow> l ! i \<notin> f \<Longrightarrow> P i"
    and stop: "\<And>i. i < length l \<Longrightarrow> l ! i \<in> f \<Longrightarrow> next_index (length l) i = fc \<Longrightarrow> P i"
    and step: "\<And>i. i < length l \<Longrightarrow> l ! i \<in> f \<Longrightarrow> next_index (length l) i \<noteq> fc \<Longrightarrow>
           P (next_index (length l) i) \<Longrightarrow> P i"
  shows "P i"
  using assms(1)
proof (induction "if fc \<le> i then length l - i + fc else fc - i" arbitrary: i rule: less_induct)
  case less
  show ?case
  proof (cases "l ! i \<in> f")
    case False
    with less.prems show ?thesis by (simp add: found)
  next
    case True
    show ?thesis
    proof (cases "next_index (length l) i = fc")
      case True
      with \<open>l ! i \<in> f\<close> less.prems show ?thesis by (simp add: stop)
    next
      case False
      have "(if fc \<le> next_index (length l) i then length l - next_index (length l) i + fc
             else fc - next_index (length l) i)
            < (if fc \<le> i then length l - i + fc else fc - i)"
        using False less.prems assms(2) by (auto simp: next_index_def split: if_splits)
      then have "P (next_index (length l) i)"
        using less.hyps less.prems next_index_less by blast
      with False \<open>l ! i \<in> f\<close> less.prems show ?thesis by (simp add: step)
    qed
  qed
qed

lemma choose_loop_not_Inl:
  assumes "i < length l" and fc: "fc < length l"
  shows "choose_loop l f fc i \<noteq> Inl e"
  using assms
  by (induction rule: choose_loop_in_range_induct [where f = f])
     (simp_all add: fc choose_loop_found choose_loop_stop choose_loop_step)

lemma choose_loop_Some:
  assumes "i < length l" and fc: "fc < length l"
  shows "choose_loop l f fc i = Inr (Some a) \<Longrightarrow> a \<in> set l \<and> a \<notin> f"
  using assms
  by (induction rule: choose_loop_in_range_induct [where f = f])
     (auto simp: fc choose_loop_found choose_loop_stop choose_loop_step)

lemma choose_loop_all_failed:
  assumes "i < length l" and fc: "fc < length l" and "set l \<subseteq> f"
  shows "choose_loop l f fc i = Inr None"
  using assms(1,2)
proof (induction rule: choose_loop_in_range_induct [where f = f])
  case (found i)
  with assms(3) show ?case by (meson nth_mem subsetD)
next
  case (stop i)
  then show ?case by (simp add: fc choose_loop_stop)
next
  case (step i)
  then show ?case by (simp add: fc choose_loop_step)
qed

lemma choose_loop_None:
  assumes "i < length l" and fc: "fc < length l"
  shows "choose_loop l f fc i = Inr None \<Longrightarrow>
   (if fc \<le> i then i \<le> j \<and> j < length l \<or> j < fc else i \<le> j \<and> j < fc) \<Longrightarrow> l ! j \<in> f"
  using assms
proof (induction rule: choose_loop_in_range_induct [where f = f])
  case (found i)
  then show ?case by (simp add: fc choose_loop_found)
next
  case (stop i)
  have "j = i" using stop.hyps stop.prems(2) fc
    by (auto simp: next_index_def split: if_splits)
  with stop.hyps show ?case by simp
next
  case (step i)
  show ?case
  proof (cases "j = i")
    case True
    with step.hyps show ?thesis by simp
  next
    case False
    have "choose_loop l f fc (next_index (length l) i) = Inr None"
      using step.hyps step.prems(1) fc by (simp add: choose_loop_step)
    moreover have "if fc \<le> next_index (length l) i
        then next_index (length l) i \<le> j \<and> j < length l \<or> j < fc
        else next_index (length l) i \<le> j \<and> j < fc"
      using False step.hyps step.prems(2) fc
      by (auto simp: next_index_def split: if_splits)
    ultimately show ?thesis by (rule step.IH)
  qed
qed

lemma choose_loop_None_iff:
  assumes "fc < length l"
  shows "choose_loop l f fc fc = Inr None \<longleftrightarrow> set l \<subseteq> f"
proof
  assume n: "choose_loop l f fc fc = Inr None"
  show "set l \<subseteq> f"
  proof
    fix a assume "a \<in> set l"
    then obtain j where j: "j < length l" "l ! j = a" by (auto simp: in_set_conv_nth)
    have "l ! j \<in> f"
      by (rule choose_loop_None [OF assms assms n]) (use j in auto)
    with j show "a \<in> f" by simp
  qed
next
  assume "set l \<subseteq> f"
  with assms show "choose_loop l f fc fc = Inr None" by (simp add: choose_loop_all_failed)
qed

lemma randint_less: "l \<noteq> [] \<Longrightarrow> randint 0 (length l - 1) x < length l"
  by (simp add: randint_def)

lemma choose_from_hosts_world:
  "snd (choose_from_hosts rnd l f w) = (if l = [] then w else w\<lparr>draws := Suc (draws w)\<rparr>)"
  by (simp add: choose_from_hosts_def random_randint_def)

lemma choose_from_hosts_fst:
  "fst (choose_from_hosts rnd l f w) =
     (if l = [] then Inr None
      else choose_loop l f (randint 0 (length l - 1) (rnd (draws w)))
             (randint 0 (length l - 1) (rnd (draws w))))"
  by (simp add: choose_from_hosts_def random_randint_def)

lemma choose_from_hosts_None_iff:
  "fst (choose_from_hosts rnd l f w) = Inr None \<longleftrightarrow> l = [] \<or> set l \<subseteq> f"
proof (cases "l = []")
  case True
  then show ?thesis by (simp add: choose_from_hosts_fst)
next
  case False
  show ?thesis
    using False choose_loop_None_iff [OF randint_less [OF False, of "rnd (draws w)"], of f]
    by (simp add: choose_from_hosts_fst)
qed

lemma choose_from_hosts_cases:
  obtains (none) "fst (choose_from_hosts rnd l f w) = Inr None" "l = [] \<or> set l \<subseteq> f"
  | (some) a where "fst (choose_from_hosts rnd l f w) = Inr (Some a)" "a \<in> set l" "a \<notin> f"
proof (cases "fst (choose_from_hosts rnd l f w)")
  case (Inl e)
  then have False
    using choose_loop_not_Inl [of "randint 0 (length l - 1) (rnd (draws w))" l _ f e] randint_less [of l]
    by (auto simp: choose_from_hosts_fst split: if_splits)
  then show ?thesis ..
next
  case (Inr r)
  show ?thesis
  proof (cases r)
    case None
    with Inr none choose_from_hosts_None_iff show ?thesis by blast
  next
    case (Some a)
    with Inr have "a \<in> set l \<and> a \<notin> f"
      using choose_loop_Some [of "randint 0 (length l - 1) (rnd (draws w))" l _ f a] randint_less [of l]
      by (auto simp: choose_from_hosts_fst split: if_splits)
    with Inr Some some show ?thesis by blast
  qed
qed

lemma check_or_update_route_exhausted:
  assumes "fst (choose_from_hosts rnd hosts failed_ips w) = Inr None"
  shows "calls (snd (check_or_update_route rnd dcidr inst eni ipaddr hosts failed_ips r rt info con w)) = calls w
    \<and> CURRENT_STATE (snd (check_or_update_route rnd dcidr inst eni ipaddr hosts failed_ips r rt info con w))
        = CURRENT_STATE w"
proof -
  obtain w' where c: "choose_from_hosts rnd hosts failed_ips w = (Inr None, w')"
    using assms by (cases "choose_from_hosts rnd hosts failed_ips w") auto
  have "calls w' = calls w \<and> CURRENT_STATE w' = CURRENT_STATE w"
    using choose_from_hosts_world [of rnd hosts failed_ips w] c by (auto split: if_splits)
  then show ?thesis
    by (auto simp: check_or_update_route_def c logging_def Let_def split: option.splits)
qed

lemma add_new_route_exhausted:
  assumes "fst (choose_from_hosts rnd hosts failed_ips w) = Inr None"
  shows "calls (snd (add_new_route rnd hosts failed_ips info con table_id dcidr w)) = calls w
    \<and> CURRENT_STATE (snd (add_new_route rnd hosts failed_ips info con table_id dcidr w))
        = CURRENT_STATE w"
proof -
  obtain w' where c: "choose_from_hosts rnd hosts failed_ips w = (Inr None, w')"
    using assms by (cases "choose_from_hosts rnd hosts failed_ips w") auto
  have "calls w' = calls w \<and> CURRENT_STATE w' = CURRENT_STATE w"
    using choose_from_hosts_world [of rnd hosts failed_ips w] c by (auto split: if_splits)
  then show ?thesis
    by (simp add: add_new_route_def add_new_route_try_def except_VpcRouteSetError_def c logging_def)
qed

text \<open>
  Claim C1. For every candidate list, failed set and random draw, \<^verbatim>\<open>_choose_from_hosts\<close>
  returns \<^verbatim>\<open>None\<close> exactly when the list is empty or every candidate is in the failed
  set; otherwise it returns a candidate of the list that is not in the failed set. When
  it returns \<^verbatim>\<open>None\<close>, its callers \<^verbatim>\<open>_check_or_update_route\<close> and \<^verbatim>\<open>_add_new_route\<close> make no
  provider call and leave the cache as it is.
\<close>

theorem choose_from_hosts_healthy:
  "(fst (choose_from_hosts rnd ip_list failed_ips w) = Inr None
      \<longleftrightarrow> ip_list = [] \<or> set ip_list \<subseteq> failed_ips)
   \<and> (\<not> (ip_list = [] \<or> set ip_list \<subseteq> failed_ips) \<longrightarrow>
        (\<exists>a. fst (choose_from_hosts rnd ip_list failed_ips w) = Inr (Some a)
           \<and> a \<in> set ip_list \<and> a \<notin> failed_ips))
   \<and> (fst (choose_from_hosts rnd ip_list failed_ips w) = Inr None \<longrightarrow>
        calls (snd (check_or_update_route rnd dcidr inst eni ipaddr ip_list failed_ips
                 r rt info con w)) = calls w
      \<and> CURRENT_STATE (snd (check_or_update_route rnd dcidr inst eni ipaddr ip_list failed_ips
                 r rt info con w)) = CURRENT_STATE w
      \<and> calls (snd (add_new_route rnd ip_list failed_ips info con table_id dcidr w)) = calls w
      \<and> CURRENT_STATE (snd (add_new_route rnd ip_list failed_ips info con table_id dcidr w))
          = CURRENT_STATE w)"
proof (intro conjI impI)
  show "fst (choose_from_hosts rnd ip_list failed_ips w) = Inr None
      \<longleftrightarrow> ip_list = [] \<or> set ip_list \<subseteq> failed_ips"
    by (rule choose_from_hosts_None_iff)
next
  assume "\<not> (ip_list = [] \<or> set ip_list \<subseteq> failed_ips)"
  then show "\<exists>a. fst (choose_from_hosts rnd ip_list failed_ips w) = Inr (Some a)
           \<and> a \<in> set ip_list \<and> a \<notin> failed_ips"
    by (cases rule: choose_from_hosts_cases [of rnd ip_list failed_ips w]) auto
qed (simp_all add: check_or_update_route_exhausted add_new_route_exhausted)

theorem choose_from_hosts_healthy_witness:
  "(\<exists>a. fst (choose_from_hosts (\<lambda>k. 0) [''10.0.0.5'', ''10.0.0.6''] {''10.0.0.5''} w0) = Inr (Some a)
        \<and> a \<in> set [''10.0.0.5'', ''10.0.0.6''] \<and> a \<notin> {''10.0.0.5''})
   \<and> fst (choose_from_hosts (\<lambda>k. 0) [''10.0.0.5''] {''10.0.0.5''} w0) = Inr None
   \<and> calls (snd (add_new_route (\<lambda>k. 0) [''10.0.0.5''] {''10.0.0.5''} (snapshot []) con_ok ''rt-1''
        ''10.0.1.0/24'' w0)) = calls w0"
  using choose_from_hosts_healthy [of "\<lambda>k. 0" "[''10.0.0.5'', ''10.0.0.6'']" "{''10.0.0.5''}" w0]
    choose_from_hosts_healthy [of "\<lambda>k. 0" "[''10.0.0.5'']" "{''10.0.0.5''}" w0
      "''10.0.1.0/24''" _ _ _ _ _ "snapshot []" con_ok "''rt-1''"]
  by simp

subsection \<open>Existing routes\<close>

lemma get_instance_private_ip_from_route_eni:
  "get_instance_private_ip_from_route inst r = (Some a, eni) \<Longrightarrow> a \<noteq> [] \<Longrightarrow> eni \<noteq> None"
  by (auto simp: get_instance_private_ip_from_route_def Let_def split: option.splits)


text \<open>
  Claim C6. An instance-attached route whose prefix is in the route spec, whose current
  address is among the candidates of the prefix and is not in the failed set, is kept:
  processing it makes no provider call, leaves the cache as it is and draws no random
  number (the selector is not called); with a non-empty address it returns normally,
  having written the message that the route exists.
\<close>

theorem healthy_route_kept:
  assumes "instance_id r = Some iid"
    and "instance_by_id info iid = Some inst"
    and "get_instance_private_ip_from_route inst r = (Some a, eni)"
    and "map_of route_spec (destination_cidr_block r) = Some hosts"
    and "a \<in> set hosts"
    and "a \<notin> failed_ips"
  shows "calls (snd (process_route rnd con info route_spec failed_ips rt r routes_in_rts w)) = calls w
    \<and> CURRENT_STATE (snd (process_route rnd con info route_spec failed_ips rt r routes_in_rts w))
        = CURRENT_STATE w
    \<and> draws (snd (process_route rnd con info route_spec failed_ips rt r routes_in_rts w)) = draws w
    \<and> (a \<noteq> [] \<longrightarrow>
         process_route rnd con info route_spec failed_ips rt r routes_in_rts w
           = (Inr (AList.map_entry (rt_id rt) (\<lambda>l. l @ [destination_cidr_block r]) routes_in_rts),
              logging INFO ''--- route exists already in RT'' w))"
proof -
  obtain h hs where hosts: "hosts = h # hs"
    using assms(5) by (cases hosts) auto
  show ?thesis
    using assms get_instance_private_ip_from_route_eni [OF assms(3)]
    by (auto simp: process_route_def check_or_update_route_def hosts logging_def Let_def
             split: option.splits)
qed

theorem healthy_route_kept_witness:
  "process_route (\<lambda>k. 0) con_ok (snapshot [table1 [route_to_a]])
       [(''10.0.1.0/24'', [''10.0.0.5'', ''10.0.0.6''])] {''10.0.0.6''} (table1 [route_to_a])
       route_to_a [(''rt-1'', [])] w0
     = (Inr [(''rt-1'', [''10.0.1.0/24''])], logging INFO ''--- route exists already in RT'' w0)"
  using healthy_route_kept [of route_to_a "''i-a''" "snapshot [table1 [route_to_a]]" inst_a
      "''10.0.0.5''" "Some eni_a" "[(''10.0.1.0/24'', [''10.0.0.5'', ''10.0.0.6''])]"
      "[''10.0.0.5'', ''10.0.0.6'']" "{''10.0.0.6''}" "\<lambda>k. 0" con_ok "table1 [route_to_a]"
      "[(''rt-1'', [])]" w0]
  by (simp add: route_to_a_def snapshot_def index_instances_def inst_a_def inst_b_def eni_a_def
        eni_b_def get_instance_private_ip_from_route_def table1_def Let_def)

subsection \<open>The cycle\<close>

text \<open>
  Claim C9. With an empty route spec \<^verbatim>\<open>handle_spec\<close> returns at once: it writes one debug
  message and nothing else. No provider call is recorded (no connection, no listing, no
  route call) and the cache is unchanged.
\<close>

theorem handle_spec_empty_spec:
  "handle_spec vpc_error_is_standard boto_connect rnd region_name vpc_id [] failed_ips w
     = (Inr (), w\<lparr>log := log w @ [(DEBUG, ''handle_spec: No route spec provided'')]\<rparr>)
   \<and> calls (snd (handle_spec vpc_error_is_standard boto_connect rnd region_name vpc_id []
         failed_ips w)) = calls w
   \<and> CURRENT_STATE (snd (handle_spec vpc_error_is_standard boto_connect rnd region_name vpc_id []
         failed_ips w)) = CURRENT_STATE w"
  by (simp add: handle_spec_def logging_def)

text \<open>
  Claim C10. With no VPC identifier (\<^verbatim>\<open>None\<close> or the empty string), \<^verbatim>\<open>get_vpc_overview\<close>
  selects the first VPC the provider lists, and calls the three listings with the filter
  value it was given, the absent identifier, not with the identifier of the selected
  VPC: the snapshot holds whatever the provider answers to that filter.
\<close>

theorem get_vpc_overview_filter:
  assumes "\<not> truthy vpc_id"
    and "get_all_zones con = Inr zs"
    and "get_all_vpcs con = Inr (v # vs)"
    and "get_all_subnets con vpc_id = Inr sns"
    and "get_all_route_tables con vpc_id = Inr rts"
    and "get_all_reservations con vpc_id = Inr rs"
  shows "\<exists>info w'. get_vpc_overview con vpc_id region_name w = (Inr info, w')
    \<and> vpc info = v
    \<and> subnets info = sns \<and> route_tables info = rts
    \<and> instances info = concat (map res_instances rs)
    \<and> calls w' = calls w @ [GetAllZones, GetAllVpcs, GetAllSubnets vpc_id,
          GetAllRouteTables vpc_id, GetAllReservations vpc_id]
    \<and> (vpc_ident v \<noteq> [] \<longrightarrow> vpc_id \<noteq> Some (vpc_ident v))"
  using assms
  by (cases vpc_id)
     (auto simp: get_vpc_overview_def select_vpc_def record_call_def logging_def Let_def)

theorem get_vpc_overview_filter_witness:
  "\<exists>info w'. get_vpc_overview con_two_vpcs None ''us-east-1'' w0 = (Inr info, w')
     \<and> vpc info = \<lparr>vpc_ident = ''vpc-1''\<rparr>
     \<and> route_tables info = [table1 [], table2]
     \<and> instances info = [inst_a, inst_c]
     \<and> calls w' = [GetAllZones, GetAllVpcs, GetAllSubnets None, GetAllRouteTables None,
          GetAllReservations None]
     \<and> (\<exists>t \<in> set (route_tables info). rt_vpc_id t \<noteq> vpc_ident (vpc info))
     \<and> (\<exists>i \<in> set (instances info). inst_vpc_id i \<noteq> vpc_ident (vpc info))"
  using get_vpc_overview_filter [of None con_two_vpcs "[''zone-a'']" "\<lparr>vpc_ident = ''vpc-1''\<rparr>"
      "[\<lparr>vpc_ident = ''vpc-2''\<rparr>]"
      "[\<lparr>subnet_id = ''subnet-1'', subnet_vpc_id = ''vpc-1''\<rparr>,
          \<lparr>subnet_id = ''subnet-2'', subnet_vpc_id = ''vpc-2''\<rparr>]"
      "[table1 [], table2]" "[\<lparr>res_instances = [inst_a, inst_c]\<rparr>]" "''us-east-1''" w0]
  by (auto simp: con_two_vpcs_def w0_def table1_def table2_def inst_a_def inst_c_def)

lemma select_vpc_fails:
  "all_vpcs = [] \<or> (truthy vpc_id \<and> vpc_id \<notin> (\<lambda>v. Some (vpc_ident v)) ` set all_vpcs) \<Longrightarrow>
   select_vpc all_vpcs vpc_id = Inl VpcRouteSetError"
proof (cases all_vpcs)
  case Nil
  then show ?thesis by (simp add: select_vpc_def)
next
  case (Cons v vs)
  assume "all_vpcs = [] \<or> (truthy vpc_id \<and> vpc_id \<notin> (\<lambda>v. Some (vpc_ident v)) ` set all_vpcs)"
  with Cons have t: "truthy vpc_id" and n: "vpc_id \<notin> (\<lambda>v. Some (vpc_ident v)) ` set all_vpcs"
    by auto
  from n have "find (\<lambda>v. Some (vpc_ident v) = vpc_id) all_vpcs = None"
    by (auto simp: find_None_iff)
  with t Cons show ?thesis by (simp add: select_vpc_def)
qed

lemma get_vpc_overview_no_vpc:
  assumes "get_all_zones con = Inr zs" and "get_all_vpcs con = Inr all_vpcs"
    and "all_vpcs = [] \<or> (truthy vpc_id \<and> vpc_id \<notin> (\<lambda>v. Some (vpc_ident v)) ` set all_vpcs)"
  shows "get_vpc_overview con vpc_id region_name w
    = (Inl VpcRouteSetError,
       record_call GetAllVpcs (record_call GetAllZones
         (logging DEBUG ''Retrieving information for VPC'' w)))"
  using assms(1,2) select_vpc_fails [OF assms(3)]
  by (simp add: get_vpc_overview_def Let_def)

text \<open>
  Claim C7 at a failing input. The provider lists no VPC, or none with the identifier
  given: \<^verbatim>\<open>get_vpc_overview\<close> raises \<^verbatim>\<open>VpcRouteSetError\<close>. The class derives from
  \<^verbatim>\<open>Exception\<close>, so under Python 2 neither handler of \<^verbatim>\<open>handle_spec\<close> catches it: the
  exception leaves \<^verbatim>\<open>handle_spec\<close> and no warning is logged. No route call has been made
  and the cache is unchanged.
\<close>

theorem snapshot_error_leaves_handle_spec:
  "handle_spec False (\<lambda>region. Inr (Some con_ok)) (\<lambda>k. 0) ''us-east-1'' None spec1 {} w0
     = (Inl VpcRouteSetError,
        w0\<lparr>calls := [Connect ''us-east-1'', GetAllZones, GetAllVpcs],
           log := [(DEBUG, ''Handle route spec''), (DEBUG, ''Connecting to AWS region''),
                   (DEBUG, ''Retrieving information for VPC'')]\<rparr>)
   \<and> handle_spec False (\<lambda>region. Inr (Some con_two_vpcs)) (\<lambda>k. 0) ''us-east-1''
       (Some ''vpc-9'') spec1 {} w0
     = (Inl VpcRouteSetError,
        w0\<lparr>calls := [Connect ''us-east-1'', GetAllZones, GetAllVpcs],
           log := [(DEBUG, ''Handle route spec''), (DEBUG, ''Connecting to AWS region''),
                   (DEBUG, ''Retrieving information for VPC'')]\<rparr>)"
  by (simp add: handle_spec_def handle_spec_try_def connect_to_region_def get_vpc_overview_def
        select_vpc_def record_call_def logging_def Let_def con_ok_def con_raising_def
        con_two_vpcs_def spec1_def w0_def)

text \<open>
  The same for every state, provider and route spec: with a class that is not a
  \<^verbatim>\<open>StandardError\<close> the exception of the snapshot builder leaves \<^verbatim>\<open>handle_spec\<close> after the
  connection and the two listings. Only a class derived from \<^verbatim>\<open>StandardError\<close> would be
  caught by the first handler, which logs the warning.
\<close>

lemma handle_spec_vpc_error_escapes:
  assumes "\<not> vpc_error_is_standard" and "route_spec \<noteq> []"
    and "boto_connect region_name = Inr (Some con)"
    and "get_all_zones con = Inr zs" and "get_all_vpcs con = Inr all_vpcs"
    and "all_vpcs = [] \<or> (truthy vpc_id \<and> vpc_id \<notin> (\<lambda>v. Some (vpc_ident v)) ` set all_vpcs)"
  shows "handle_spec vpc_error_is_standard boto_connect rnd region_name vpc_id route_spec
            failed_ips w
    = (Inl VpcRouteSetError,
       w\<lparr>calls := calls w @ [Connect region_name, GetAllZones, GetAllVpcs],
         log := log w @ [(DEBUG, ''Handle route spec''), (DEBUG, ''Connecting to AWS region''),
                 (DEBUG, ''Retrieving information for VPC'')]\<rparr>)"
proof -
  have "get_vpc_overview con vpc_id region_name w'
    = (Inl VpcRouteSetError,
       record_call GetAllVpcs (record_call GetAllZones
         (logging DEBUG ''Retrieving information for VPC'' w')))" for w'
    using assms(4,5,6) by (rule get_vpc_overview_no_vpc)
  with assms(1,2,3) show ?thesis
    by (simp add: handle_spec_def handle_spec_try_def connect_to_region_def record_call_def
          logging_def Let_def)
qed

lemma handle_spec_vpc_error_caught_if_standard:
  assumes "vpc_error_is_standard" and "route_spec \<noteq> []"
    and "boto_connect region_name = Inr (Some con)"
    and "get_all_zones con = Inr zs" and "get_all_vpcs con = Inr all_vpcs"
    and "all_vpcs = [] \<or> (truthy vpc_id \<and> vpc_id \<notin> (\<lambda>v. Some (vpc_ident v)) ` set all_vpcs)"
  shows "handle_spec vpc_error_is_standard boto_connect rnd region_name vpc_id route_spec
            failed_ips w
    = (Inr (),
       w\<lparr>calls := calls w @ [Connect region_name, GetAllZones, GetAllVpcs],
         log := log w @ [(DEBUG, ''Handle route spec''), (DEBUG, ''Connecting to AWS region''),
                 (DEBUG, ''Retrieving information for VPC''),
                 (WARNING, ''vpc-router could not set route'')]\<rparr>)"
proof -
  have "get_vpc_overview con vpc_id region_name w'
    = (Inl VpcRouteSetError,
       record_call GetAllVpcs (record_call GetAllZones
         (logging DEBUG ''Retrieving information for VPC'' w')))" for w'
    using assms(4,5,6) by (rule get_vpc_overview_no_vpc)
  with assms(1,2,3) show ?thesis
    by (simp add: handle_spec_def handle_spec_try_def connect_to_region_def record_call_def
          logging_def Let_def)
qed

subsection \<open>The mutation dispatcher\<close>

lemma choose_from_hosts_frame:
  "choose_from_hosts rnd l f w = (res, w') \<Longrightarrow>
   calls w' = calls w \<and> CURRENT_STATE w' = CURRENT_STATE w \<and> log w' = log w"
  by (auto simp: choose_from_hosts_def random_randint_def split: if_splits)

lemma find_in_instances_error:
  "find_in_instances insts a = Inl x \<Longrightarrow> x = VpcRouteSetError"
  by (induction insts) (auto split: option.splits)

lemma find_instance_and_emi_by_ip_error:
  "find_instance_and_emi_by_ip info a = Inl x \<Longrightarrow> x = VpcRouteSetError"
  by (simp add: find_instance_and_emi_by_ip_def find_in_instances_error)

lemma check_or_update_route_try_effect:
  assumes "check_or_update_route_try con dcidr a rt info w = (res, w')"
  shows "(res = Inl VpcRouteSetError \<and> calls w' = calls w \<and> CURRENT_STATE w' = CURRENT_STATE w)
    \<or> (\<exists>i e. calls w' = calls w @ [ReplaceRoute (rt_id rt) dcidr i e]
          \<and> (case route_call con (calls w) (ReplaceRoute (rt_id rt) dcidr i e) of
                Inr status \<Rightarrow> res = Inr ()
                  \<and> CURRENT_STATE w' = (CURRENT_STATE w)(dcidr \<mapsto> (a, i, e))
              | Inl x \<Rightarrow> res = Inl x \<and> CURRENT_STATE w' = CURRENT_STATE w))"
proof (cases "find_instance_and_emi_by_ip info a")
  case (Inl x)
  then have "x = VpcRouteSetError" by (rule find_instance_and_emi_by_ip_error)
  with Inl assms show ?thesis by (simp add: check_or_update_route_try_def)
next
  case (Inr p)
  obtain inst eni where p: "p = (inst, eni)" by (cases p)
  let ?c = "ReplaceRoute (rt_id rt) dcidr (inst_id inst) (eni_id eni)"
  have "calls w' = calls w @ [?c]
      \<and> (case route_call con (calls w) ?c of
            Inr status \<Rightarrow> res = Inr ()
              \<and> CURRENT_STATE w' = (CURRENT_STATE w)(dcidr \<mapsto> (a, inst_id inst, eni_id eni))
          | Inl x \<Rightarrow> res = Inl x \<and> CURRENT_STATE w' = CURRENT_STATE w)"
    using assms Inr p
    by (cases "route_call con (calls w) ?c")
       (auto simp: check_or_update_route_try_def invoke_def record_call_def logging_def)
  then show ?thesis by blast
qed

lemma add_new_route_try_effect:
  assumes "add_new_route_try rnd hosts failed_ips info con table_id dcidr w = (res, w')"
  shows "(calls w' = calls w \<and> CURRENT_STATE w' = CURRENT_STATE w
          \<and> (res = Inr () \<or> res = Inl VpcRouteSetError))
    \<or> (\<exists>a i e. calls w' = calls w @ [CreateRoute table_id dcidr i e]
          \<and> (case route_call con (calls w) (CreateRoute table_id dcidr i e) of
                Inr status \<Rightarrow> res = Inr ()
                  \<and> CURRENT_STATE w' = (CURRENT_STATE w)(dcidr \<mapsto> (a, i, e))
              | Inl x \<Rightarrow> res = Inl x \<and> CURRENT_STATE w' = CURRENT_STATE w))"
proof (cases "choose_from_hosts rnd hosts failed_ips w")
  case (Pair c w1)
  note f = choose_from_hosts_frame [OF Pair]
  show ?thesis
  proof (cases rule: choose_from_hosts_cases [of rnd hosts failed_ips w])
    case none
    with Pair have "c = Inr None" by simp
    with Pair assms f show ?thesis
      by (auto simp: add_new_route_try_def logging_def)
  next
    case (some a)
    with Pair have c: "c = Inr (Some a)" by simp
    show ?thesis
    proof (cases "a = []")
      case True
      with c Pair assms f show ?thesis
        by (auto simp: add_new_route_try_def logging_def)
    next
      case False
      show ?thesis
      proof (cases "find_instance_and_emi_by_ip info a")
        case (Inl x)
        then have "x = VpcRouteSetError" by (rule find_instance_and_emi_by_ip_error)
        with Inl False c Pair assms f show ?thesis
          by (auto simp: add_new_route_try_def)
      next
        case (Inr p)
        obtain inst eni where p: "p = (inst, eni)" by (cases p)
        let ?c = "CreateRoute table_id dcidr (inst_id inst) (eni_id eni)"
        have "calls w' = calls w @ [?c]
          \<and> (case route_call con (calls w) ?c of
                Inr status \<Rightarrow> res = Inr ()
                  \<and> CURRENT_STATE w' = (CURRENT_STATE w)(dcidr \<mapsto> (a, inst_id inst, eni_id eni))
              | Inl x \<Rightarrow> res = Inl x \<and> CURRENT_STATE w' = CURRENT_STATE w)"
          using assms Inr p False c Pair f
          by (cases "route_call con (calls w) ?c")
             (auto simp: add_new_route_try_def invoke_def record_call_def logging_def)
        then show ?thesis by blast
      qed
    qed
  qed
qed

lemma except_VpcRouteSetError_effect:
  assumes "except_VpcRouteSetError msg (res, w1) = (res', w')"
  shows "calls w' = calls w1 \<and> CURRENT_STATE w' = CURRENT_STATE w1
    \<and> res' = (if res = Inl VpcRouteSetError then Inr () else res)"
  using assms
  by (auto simp: except_VpcRouteSetError_def logging_def split: sum.splits if_splits)

text \<open>
  What holds of both functions, whatever the provider does: \<^verbatim>\<open>_check_or_update_route\<close> and
  \<^verbatim>\<open>_add_new_route\<close> make at most one route call, a replace or a create for the prefix.
  The cache is written only after that call has returned, and only at the prefix; if the
  call raises, the cache is unchanged. The handler catches \<^verbatim>\<open>VpcRouteSetError\<close> alone: an
  exception of another class leaves the function.
\<close>

lemma cache_written_after_successful_call:
  assumes "check_or_update_route rnd dcidr inst eni ipaddr hosts failed_ips r rt info con w
             = (res, w')
         \<or> add_new_route rnd hosts failed_ips info con (rt_id rt) dcidr w = (res, w')"
  shows "(calls w' = calls w \<and> CURRENT_STATE w' = CURRENT_STATE w)
    \<or> (\<exists>c a i e. calls w' = calls w @ [c]
          \<and> (c = ReplaceRoute (rt_id rt) dcidr i e \<or> c = CreateRoute (rt_id rt) dcidr i e)
          \<and> (case route_call con (calls w) c of
                Inr status \<Rightarrow> res = Inr ()
                  \<and> CURRENT_STATE w' = (CURRENT_STATE w)(dcidr \<mapsto> (a, i, e))
              | Inl x \<Rightarrow> CURRENT_STATE w' = CURRENT_STATE w
                  \<and> res = (if x = VpcRouteSetError then Inr () else Inl x)))"
  using assms
proof
  assume a: "add_new_route rnd hosts failed_ips info con (rt_id rt) dcidr w = (res, w')"
  obtain res1 w1 where c: "add_new_route_try rnd hosts failed_ips info con (rt_id rt) dcidr w = (res1, w1)"
    by (cases "add_new_route_try rnd hosts failed_ips info con (rt_id rt) dcidr w")
  from a c have e: "calls w' = calls w1 \<and> CURRENT_STATE w' = CURRENT_STATE w1
      \<and> res = (if res1 = Inl VpcRouteSetError then Inr () else res1)"
    by (intro except_VpcRouteSetError_effect) (simp add: add_new_route_def)
  from add_new_route_try_effect [OF c] show ?thesis
  proof
    assume "calls w1 = calls w \<and> CURRENT_STATE w1 = CURRENT_STATE w
          \<and> (res1 = Inr () \<or> res1 = Inl VpcRouteSetError)"
    with e show ?thesis by simp
  next
    assume "\<exists>a i e. calls w1 = calls w @ [CreateRoute (rt_id rt) dcidr i e]
          \<and> (case route_call con (calls w) (CreateRoute (rt_id rt) dcidr i e) of
                Inr status \<Rightarrow> res1 = Inr ()
                  \<and> CURRENT_STATE w1 = (CURRENT_STATE w)(dcidr \<mapsto> (a, i, e))
              | Inl x \<Rightarrow> res1 = Inl x \<and> CURRENT_STATE w1 = CURRENT_STATE w)"
    then obtain a i e' where h: "calls w1 = calls w @ [CreateRoute (rt_id rt) dcidr i e']"
      "case route_call con (calls w) (CreateRoute (rt_id rt) dcidr i e') of
                Inr status \<Rightarrow> res1 = Inr ()
                  \<and> CURRENT_STATE w1 = (CURRENT_STATE w)(dcidr \<mapsto> (a, i, e'))
              | Inl x \<Rightarrow> res1 = Inl x \<and> CURRENT_STATE w1 = CURRENT_STATE w"
      by blast
    have "calls w' = calls w @ [CreateRoute (rt_id rt) dcidr i e']
      \<and> (case route_call con (calls w) (CreateRoute (rt_id rt) dcidr i e') of
                Inr status \<Rightarrow> res = Inr ()
                  \<and> CURRENT_STATE w' = (CURRENT_STATE w)(dcidr \<mapsto> (a, i, e'))
              | Inl x \<Rightarrow> CURRENT_STATE w' = CURRENT_STATE w
                  \<and> res = (if x = VpcRouteSetError then Inr () else Inl x))"
      using h e by (auto split: sum.splits)
    then show ?thesis by blast
  qed
next
  assume a: "check_or_update_route rnd dcidr inst eni ipaddr hosts failed_ips r rt info con w
             = (res, w')"
  show ?thesis
  proof (cases "(case ipaddr of None \<Rightarrow> False | Some a \<Rightarrow> a \<in> set hosts)
              \<and> \<not> (case ipaddr of None \<Rightarrow> False | Some a \<Rightarrow> a \<in> failed_ips)")
    case True
    with a show ?thesis
      by (auto simp: check_or_update_route_def logging_def split: option.splits)
  next
    case False
    obtain c w1 where p: "choose_from_hosts rnd hosts failed_ips w = (c, w1)"
      by (cases "choose_from_hosts rnd hosts failed_ips w")
    note f = choose_from_hosts_frame [OF p]
    show ?thesis
    proof (cases rule: choose_from_hosts_cases [of rnd hosts failed_ips w])
      case none
      with p have "c = Inr None" by simp
      with p a f False show ?thesis
        by (auto simp: check_or_update_route_def logging_def)
    next
      case (some x)
      with p have c: "c = Inr (Some x)" by simp
      show ?thesis
      proof (cases "x = []")
        case True
        with c p a f False show ?thesis
          by (auto simp: check_or_update_route_def logging_def)
      next
        case nonempty: False
        obtain res1 w2 where u: "check_or_update_route_try con dcidr x rt info w1 = (res1, w2)"
          by (cases "check_or_update_route_try con dcidr x rt info w1")
        from a False c p nonempty u
        have "except_VpcRouteSetError ''*** failed to update route in RT'' (res1, w2) = (res, w')"
          by (auto simp: check_or_update_route_def)
        then have e: "calls w' = calls w2 \<and> CURRENT_STATE w' = CURRENT_STATE w2
            \<and> res = (if res1 = Inl VpcRouteSetError then Inr () else res1)"
          by (rule except_VpcRouteSetError_effect)
        from check_or_update_route_try_effect [OF u] show ?thesis
        proof
          assume "res1 = Inl VpcRouteSetError \<and> calls w2 = calls w1
              \<and> CURRENT_STATE w2 = CURRENT_STATE w1"
          with e f show ?thesis by simp
        next
          assume "\<exists>i e. calls w2 = calls w1 @ [ReplaceRoute (rt_id rt) dcidr i e]
            \<and> (case route_call con (calls w1) (ReplaceRoute (rt_id rt) dcidr i e) of
                  Inr status \<Rightarrow> res1 = Inr ()
                    \<and> CURRENT_STATE w2 = (CURRENT_STATE w1)(dcidr \<mapsto> (x, i, e))
                | Inl y \<Rightarrow> res1 = Inl y \<and> CURRENT_STATE w2 = CURRENT_STATE w1)"
          then obtain i e' where h: "calls w2 = calls w1 @ [ReplaceRoute (rt_id rt) dcidr i e']"
            "case route_call con (calls w1) (ReplaceRoute (rt_id rt) dcidr i e') of
                  Inr status \<Rightarrow> res1 = Inr ()
                    \<and> CURRENT_STATE w2 = (CURRENT_STATE w1)(dcidr \<mapsto> (x, i, e'))
                | Inl y \<Rightarrow> res1 = Inl y \<and> CURRENT_STATE w2 = CURRENT_STATE w1"
            by blast
          have "calls w' = calls w @ [ReplaceRoute (rt_id rt) dcidr i e']
            \<and> (case route_call con (calls w) (ReplaceRoute (rt_id rt) dcidr i e') of
                  Inr status \<Rightarrow> res = Inr ()
                    \<and> CURRENT_STATE w' = (CURRENT_STATE w)(dcidr \<mapsto> (x, i, e'))
                | Inl y \<Rightarrow> CURRENT_STATE w' = CURRENT_STATE w
                    \<and> res = (if y = VpcRouteSetError then Inr () else Inl y))"
            using h e f by (auto split: sum.splits)
          then show ?thesis by blast
        qed
      qed
    qed
  qed
qed

text \<open>
  Claim C3 at a failing input. The replace call, or the create call, raises a provider
  error, an exception of the class \<^verbatim>\<open>boto.exception.StandardError\<close> as the cloud library
  raises them. The handler around the call, which logs that the route could not be
  updated or added, names \<^verbatim>\<open>VpcRouteSetError\<close> only, so the exception leaves
  \<^verbatim>\<open>process_route_spec_config\<close>: after the failed replace the next route of the table,
  which is not in the route spec, is not deleted; after the failed create the second
  prefix of the route spec is not created. The cache is unchanged in both runs.
\<close>

theorem failed_replace_aborts_cycle:
  "route_call (con_raising (\<lambda>c. Some StandardError)) []
       (ReplaceRoute ''rt-1'' ''10.0.1.0/24'' ''i-b'' ''eni-b'') = Inl StandardError
   \<and> process_route_spec_config (\<lambda>k. 0) (con_raising (\<lambda>c. Some StandardError))
       (snapshot [table1 [route_to_a, route_old]]) spec1 {} w0
     = (Inl StandardError,
        w0\<lparr>calls := [ReplaceRoute ''rt-1'' ''10.0.1.0/24'' ''i-b'' ''eni-b''],
           log := [(DEBUG, ''Route spec processing. No failed IPs.''),
                   (INFO, ''--- route exists already in RT, updating'')],
           draws := 1\<rparr>)
   \<and> process_route_spec_config (\<lambda>k. 0) (con_raising (\<lambda>c. Some StandardError))
       (snapshot [table1 []]) spec2 {} w0
     = (Inl StandardError,
        w0\<lparr>calls := [CreateRoute ''rt-1'' ''10.0.1.0/24'' ''i-b'' ''eni-b''],
           log := [(DEBUG, ''Route spec processing. No failed IPs.''),
                   (INFO, ''--- adding route in RT'')],
           draws := 1\<rparr>)"
  by (simp add: example_defs run_defs spec1_def spec2_def route_to_a_def route_old_def)

subsection \<open>Failures within the reconciler\<close>

text \<open>
  Claim C2 at a failing input. The first route of the table points to an instance that
  is not in the snapshot: the index \<^verbatim>\<open>vpc_info['instance_by_id'][r.instance_id]\<close> raises a
  \<^verbatim>\<open>KeyError\<close> that nothing in \<^verbatim>\<open>process_route_spec_config\<close> catches. The second route, not
  in the route spec, is not deleted and the missing prefix of the spec is not created.
\<close>

theorem lookup_by_id_aborts_cycle:
  "process_route_spec_config (\<lambda>k. 0) con_ok (snapshot [table1 [route_gone, route_old]])
       spec1 {} w0
     = (Inl KeyError, w0\<lparr>log := [(DEBUG, ''Route spec processing. No failed IPs.'')]\<rparr>)"
  by (simp add: example_defs run_defs spec1_def route_gone_def route_old_def)

text \<open>
  The lookup by address is the one that is isolated: \<^verbatim>\<open>_add_new_route\<close> never raises a
  \<^verbatim>\<open>VpcRouteSetError\<close>, and returns normally with an error logged when the address chosen
  belongs to no interface of the snapshot.
\<close>

lemma add_new_route_catches_lookup_error:
  "fst (add_new_route rnd hosts failed_ips info con table_id dcidr w) \<noteq> Inl VpcRouteSetError"
proof -
  obtain res w1 where c: "add_new_route_try rnd hosts failed_ips info con table_id dcidr w = (res, w1)"
    by (cases "add_new_route_try rnd hosts failed_ips info con table_id dcidr w")
  obtain res' w' where a: "add_new_route rnd hosts failed_ips info con table_id dcidr w = (res', w')"
    by (cases "add_new_route rnd hosts failed_ips info con table_id dcidr w")
  from a c have "except_VpcRouteSetError ''*** failed to add route in RT'' (res, w1) = (res', w')"
    by (simp add: add_new_route_def)
  from except_VpcRouteSetError_effect [OF this] a show ?thesis
    by (auto split: if_splits)
qed

lemma add_new_route_lookup_error:
  assumes "fst (choose_from_hosts rnd hosts failed_ips w) = Inr (Some a)" and "a \<noteq> []"
    and "find_instance_and_emi_by_ip info a = Inl VpcRouteSetError"
  shows "add_new_route rnd hosts failed_ips info con table_id dcidr w
    = (Inr (), logging ERROR ''*** failed to add route in RT''
         (snd (choose_from_hosts rnd hosts failed_ips w)))"
  using assms
  by (cases "choose_from_hosts rnd hosts failed_ips w")
     (simp add: add_new_route_def add_new_route_try_def except_VpcRouteSetError_def)

text \<open>
  Claim C4 at a failing input. The delete call for the first route raises, a
  \<^verbatim>\<open>VpcRouteSetError\<close> (the class the handlers of the create and replace paths catch) or
  a provider error: no handler surrounds the call, the exception leaves
  \<^verbatim>\<open>process_route_spec_config\<close>, the second route is not deleted and the missing prefix
  of the spec is not created. The cache is unchanged.
\<close>

theorem failed_delete_aborts_cycle:
  "process_route_spec_config (\<lambda>k. 0) (con_delete_fails VpcRouteSetError)
       (snapshot [table1 [route_old, route_older]]) spec1 {} w0
     = (Inl VpcRouteSetError,
        w0\<lparr>calls := [DeleteRoute ''rt-1'' ''10.0.2.0/24''],
           log := [(DEBUG, ''Route spec processing. No failed IPs.''),
                   (INFO, ''--- route not in spec, deleting in RT'')]\<rparr>)
   \<and> process_route_spec_config (\<lambda>k. 0) (con_delete_fails StandardError)
       (snapshot [table1 [route_old, route_older]]) spec1 {} w0
     = (Inl StandardError,
        w0\<lparr>calls := [DeleteRoute ''rt-1'' ''10.0.2.0/24''],
           log := [(DEBUG, ''Route spec processing. No failed IPs.''),
                   (INFO, ''--- route not in spec, deleting in RT'')]\<rparr>)"
  by (simp add: example_defs run_defs spec1_def route_old_def route_older_def
        con_delete_fails_def)

text \<open>Whatever the delete call raises leaves the loop body, and with it the loop.\<close>

lemma delete_failure_propagates:
  assumes "instance_id r = Some iid" and "instance_by_id info iid = Some inst"
    and "map_of route_spec (destination_cidr_block r) = None
       \<or> map_of route_spec (destination_cidr_block r) = Some []"
    and "route_call con (calls w) (DeleteRoute (rt_id rt) (destination_cidr_block r)) = Inl e"
  shows "process_route rnd con info route_spec failed_ips rt r routes_in_rts w
    = (Inl e, record_call (DeleteRoute (rt_id rt) (destination_cidr_block r))
         (logging INFO ''--- route not in spec, deleting in RT'' w))"
  using assms
  by (auto simp: process_route_def invoke_def logging_def record_call_def Let_def
           split: prod.splits)

lemma process_routes_stops_at_exception:
  assumes "process_route rnd con info route_spec failed_ips rt r routes_in_rts w = (Inl e, w')"
  shows "process_routes rnd con info route_spec failed_ips rt (r # rs) routes_in_rts w = (Inl e, w')"
  using assms by simp

subsection \<open>The calls of the two passes\<close>

lemma makes_calls_refl: "calls w' = calls w \<Longrightarrow> makes_calls P w w'"
  by (simp add: makes_calls_def)

lemma makes_calls_one: "calls w' = calls w @ [c] \<Longrightarrow> P c \<Longrightarrow> makes_calls P w w'"
  by (simp add: makes_calls_def)

lemma makes_calls_trans: "makes_calls P w w1 \<Longrightarrow> makes_calls P w1 w' \<Longrightarrow> makes_calls P w w'"
  by (fastforce simp: makes_calls_def)

lemma makes_calls_mono: "makes_calls P w w' \<Longrightarrow> (\<And>c. P c \<Longrightarrow> Q c) \<Longrightarrow> makes_calls Q w w'"
  by (fastforce simp: makes_calls_def)

lemma check_or_update_route_calls:
  assumes "check_or_update_route rnd dcidr inst eni ipaddr hosts failed_ips r rt info con w
             = (res, w')"
  shows "calls w' = calls w \<or> (\<exists>i e. calls w' = calls w @ [ReplaceRoute (rt_id rt) dcidr i e])"
proof (cases "(case ipaddr of None \<Rightarrow> False | Some a \<Rightarrow> a \<in> set hosts)
              \<and> \<not> (case ipaddr of None \<Rightarrow> False | Some a \<Rightarrow> a \<in> failed_ips)")
  case True
  with assms show ?thesis
    by (auto simp: check_or_update_route_def logging_def split: option.splits)
next
  case False
  obtain c w1 where p: "choose_from_hosts rnd hosts failed_ips w = (c, w1)"
    by (cases "choose_from_hosts rnd hosts failed_ips w")
  note f = choose_from_hosts_frame [OF p]
  show ?thesis
  proof (cases rule: choose_from_hosts_cases [of rnd hosts failed_ips w])
    case none
    with p have "c = Inr None" by simp
    with p assms f False show ?thesis
      by (auto simp: check_or_update_route_def logging_def)
  next
    case (some x)
    with p have c: "c = Inr (Some x)" by simp
    show ?thesis
    proof (cases "x = []")
      case True
      with c p assms f False show ?thesis
        by (auto simp: check_or_update_route_def logging_def)
    next
      case nonempty: False
      obtain res1 w2 where u: "check_or_update_route_try con dcidr x rt info w1 = (res1, w2)"
        by (cases "check_or_update_route_try con dcidr x rt info w1")
      from assms False c p nonempty u
      have "except_VpcRouteSetError ''*** failed to update route in RT'' (res1, w2) = (res, w')"
        by (auto simp: check_or_update_route_def)
      then have "calls w' = calls w2"
        using except_VpcRouteSetError_effect by blast
      with check_or_update_route_try_effect [OF u] f show ?thesis by auto
    qed
  qed
qed

lemma add_new_route_calls:
  assumes "add_new_route rnd hosts failed_ips info con table_id dcidr w = (res, w')"
  shows "calls w' = calls w \<or> (\<exists>i e. calls w' = calls w @ [CreateRoute table_id dcidr i e])"
proof -
  obtain res1 w1 where c: "add_new_route_try rnd hosts failed_ips info con table_id dcidr w = (res1, w1)"
    by (cases "add_new_route_try rnd hosts failed_ips info con table_id dcidr w")
  from assms c have "except_VpcRouteSetError ''*** failed to add route in RT'' (res1, w1) = (res, w')"
    by (simp add: add_new_route_def)
  then have "calls w' = calls w1"
    using except_VpcRouteSetError_effect by blast
  with add_new_route_try_effect [OF c] show ?thesis by auto
qed

lemma process_route_foreign:
  "instance_id r = None \<Longrightarrow>
   process_route rnd con info route_spec failed_ips rt r routes_in_rts w
     = (Inr (AList.map_entry (rt_id rt) (\<lambda>l. l @ [destination_cidr_block r]) routes_in_rts), w)"
  by (simp add: process_route_def Let_def)

lemma process_route_calls:
  assumes "process_route rnd con info route_spec failed_ips rt r s w = (res, w')"
  shows "makes_calls (\<lambda>c. instance_id r \<noteq> None
            \<and> route_key c = Some (rt_id rt, destination_cidr_block r)) w w'"
proof (cases "instance_id r")
  case None
  with assms show ?thesis by (simp add: process_route_foreign makes_calls_refl)
next
  case (Some iid)
  show ?thesis
  proof (cases "instance_by_id info iid")
    case None
    with Some assms show ?thesis by (simp add: process_route_def Let_def makes_calls_refl)
  next
    case inst: (Some inst)
    obtain ipaddr eni where g: "get_instance_private_ip_from_route inst r = (ipaddr, eni)"
      by (cases "get_instance_private_ip_from_route inst r")
    show ?thesis
    proof (cases "\<exists>h hs. map_of route_spec (destination_cidr_block r) = Some (h # hs)")
      case True
      then obtain h hs where hs: "map_of route_spec (destination_cidr_block r) = Some (h # hs)"
        by blast
      obtain res1 w1 where c: "check_or_update_route rnd (destination_cidr_block r) inst eni ipaddr
          (h # hs) failed_ips r rt info con w = (res1, w1)"
        by (cases "check_or_update_route rnd (destination_cidr_block r) inst eni ipaddr
          (h # hs) failed_ips r rt info con w")
      from assms Some inst g hs c have "w' = w1"
        by (auto simp: process_route_def Let_def split: sum.splits)
      with check_or_update_route_calls [OF c] Some show ?thesis
        by (auto intro: makes_calls_refl makes_calls_one)
    next
      case False
      then have "calls w' = calls w @ [DeleteRoute (rt_id rt) (destination_cidr_block r)]"
        using assms Some inst g
        by (auto simp: process_route_def Let_def invoke_def record_call_def logging_def
                 split: option.splits list.splits sum.splits)
      with Some show ?thesis by (auto intro: makes_calls_one)
    qed
  qed
qed

lemma process_route_seen:
  assumes "process_route rnd con info route_spec failed_ips rt r s w = (Inr s', w')"
  shows "s' = AList.map_entry (rt_id rt) (\<lambda>l. l @ [destination_cidr_block r]) s"
  using assms
  by (auto simp: process_route_def Let_def split: option.splits list.splits sum.splits prod.splits)

lemma map_entry_twice:
  "AList.map_entry k f (AList.map_entry k g s) = AList.map_entry k (\<lambda>l. f (g l)) s"
  by (induction s) auto

lemma map_entry_ident: "AList.map_entry k (\<lambda>l. l) s = s"
  by (induction s) auto

lemma process_routes_calls:
  assumes "process_routes rnd con info route_spec failed_ips rt rs s w = (res, w')"
  shows "makes_calls (\<lambda>c. \<exists>r \<in> set rs. instance_id r \<noteq> None
            \<and> route_key c = Some (rt_id rt, destination_cidr_block r)) w w'"
  using assms
proof (induction rs arbitrary: s w)
  case Nil
  then show ?case by (simp add: makes_calls_refl)
next
  case (Cons r rs)
  obtain res1 w1 where p: "process_route rnd con info route_spec failed_ips rt r s w = (res1, w1)"
    by (cases "process_route rnd con info route_spec failed_ips rt r s w")
  have m1: "makes_calls (\<lambda>c. \<exists>r' \<in> set (r # rs). instance_id r' \<noteq> None
            \<and> route_key c = Some (rt_id rt, destination_cidr_block r')) w w1"
    by (rule makes_calls_mono [OF process_route_calls [OF p]]) auto
  show ?case
  proof (cases res1)
    case (Inl e)
    with p Cons.prems have "w' = w1" by simp
    with m1 show ?thesis by simp
  next
    case (Inr s1)
    with p Cons.prems
    have "process_routes rnd con info route_spec failed_ips rt rs s1 w1 = (res, w')" by simp
    from Cons.IH [OF this]
    have "makes_calls (\<lambda>c. \<exists>r' \<in> set (r # rs). instance_id r' \<noteq> None
            \<and> route_key c = Some (rt_id rt, destination_cidr_block r')) w1 w'"
      by (rule makes_calls_mono) auto
    with m1 show ?thesis by (rule makes_calls_trans)
  qed
qed

lemma process_routes_seen:
  assumes "process_routes rnd con info route_spec failed_ips rt rs s w = (Inr s', w')"
  shows "s' = AList.map_entry (rt_id rt) (\<lambda>l. l @ map destination_cidr_block rs) s"
  using assms
proof (induction rs arbitrary: s w)
  case Nil
  then show ?case by (simp add: map_entry_ident)
next
  case (Cons r rs)
  obtain res1 w1 where p: "process_route rnd con info route_spec failed_ips rt r s w = (res1, w1)"
    by (cases "process_route rnd con info route_spec failed_ips rt r s w")
  show ?case
  proof (cases res1)
    case (Inl e)
    with p Cons.prems show ?thesis by simp
  next
    case (Inr s1)
    with p Cons.prems
    have "process_routes rnd con info route_spec failed_ips rt rs s1 w1 = (Inr s', w')" by simp
    from Cons.IH [OF this] process_route_seen [OF p [unfolded Inr]]
    show ?thesis by (simp add: map_entry_twice)
  qed
qed

lemma process_tables_calls:
  assumes "process_tables rnd con info route_spec failed_ips rts s w = (res, w')"
  shows "makes_calls (\<lambda>c. \<exists>rt \<in> set rts. \<exists>r \<in> set (routes rt). instance_id r \<noteq> None
            \<and> route_key c = Some (rt_id rt, destination_cidr_block r)) w w'"
  using assms
proof (induction rts arbitrary: s w)
  case Nil
  then show ?case by (simp add: makes_calls_refl)
next
  case (Cons rt rts)
  obtain res1 w1 where p: "process_routes rnd con info route_spec failed_ips rt (routes rt)
      (AList.update (rt_id rt) [] s) w = (res1, w1)"
    by (cases "process_routes rnd con info route_spec failed_ips rt (routes rt)
      (AList.update (rt_id rt) [] s) w")
  have m1: "makes_calls (\<lambda>c. \<exists>rt' \<in> set (rt # rts). \<exists>r \<in> set (routes rt'). instance_id r \<noteq> None
            \<and> route_key c = Some (rt_id rt', destination_cidr_block r)) w w1"
    by (rule makes_calls_mono [OF process_routes_calls [OF p]]) auto
  show ?case
  proof (cases res1)
    case (Inl e)
    with p Cons.prems have "w' = w1" by simp
    with m1 show ?thesis by simp
  next
    case (Inr s1)
    with p Cons.prems
    have "process_tables rnd con info route_spec failed_ips rts s1 w1 = (res, w')" by simp
    from Cons.IH [OF this]
    have "makes_calls (\<lambda>c. \<exists>rt' \<in> set (rt # rts). \<exists>r \<in> set (routes rt'). instance_id r \<noteq> None
            \<and> route_key c = Some (rt_id rt', destination_cidr_block r)) w1 w'"
      by (rule makes_calls_mono) auto
    with m1 show ?thesis by (rule makes_calls_trans)
  qed
qed

lemma process_tables_seen:
  assumes "process_tables rnd con info route_spec failed_ips rts s w = (Inr s', w')"
    and "distinct (map fst s)"
  shows "distinct (map fst s')
    \<and> (\<forall>k. k \<notin> rt_id ` set rts \<longrightarrow> map_of s' k = map_of s k)
    \<and> (distinct (map rt_id rts) \<longrightarrow>
         (\<forall>rt \<in> set rts. map_of s' (rt_id rt) = Some (map destination_cidr_block (routes rt))))"
  using assms
proof (induction rts arbitrary: s w)
  case Nil
  then show ?case by simp
next
  case (Cons rt rts)
  let ?s0 = "AList.update (rt_id rt) [] s"
  obtain res1 w1 where p: "process_routes rnd con info route_spec failed_ips rt (routes rt) ?s0 w
      = (res1, w1)"
    by (cases "process_routes rnd con info route_spec failed_ips rt (routes rt) ?s0 w")
  show ?case
  proof (cases res1)
    case (Inl e)
    with p Cons.prems show ?thesis by simp
  next
    case (Inr s1)
    with p Cons.prems
    have t: "process_tables rnd con info route_spec failed_ips rts s1 w1 = (Inr s', w')" by simp
    have s1: "s1 = AList.map_entry (rt_id rt) (\<lambda>l. l @ map destination_cidr_block (routes rt)) ?s0"
      using process_routes_seen [OF p [unfolded Inr]] .
    have d1: "distinct (map fst s1)"
      unfolding s1 using Cons.prems(2) by (simp add: distinct_map_entry distinct_update)
    have m1: "map_of s1 k = (if k = rt_id rt then Some (map destination_cidr_block (routes rt))
                             else map_of s k)" for k
      unfolding s1 by (simp add: map_of_map_entry update_conv')
    from Cons.IH [OF t d1]
    have ih: "distinct (map fst s')"
      "\<And>k. k \<notin> rt_id ` set rts \<Longrightarrow> map_of s' k = map_of s1 k"
      "distinct (map rt_id rts) \<Longrightarrow>
         \<forall>rt \<in> set rts. map_of s' (rt_id rt) = Some (map destination_cidr_block (routes rt))"
      by auto
    show ?thesis
    proof (intro conjI allI impI ballI)
      show "distinct (map fst s')" by (rule ih(1))
    next
      fix k assume "k \<notin> rt_id ` set (rt # rts)"
      then show "map_of s' k = map_of s k" using ih(2) [of k] m1 [of k] by auto
    next
      fix rt' assume d: "distinct (map rt_id (rt # rts))" and m: "rt' \<in> set (rt # rts)"
      show "map_of s' (rt_id rt') = Some (map destination_cidr_block (routes rt'))"
      proof (cases "rt' \<in> set rts")
        case True
        with d ih(3) show ?thesis by simp
      next
        case False
        with m have "rt' = rt" by simp
        moreover from d have "rt_id rt \<notin> rt_id ` set rts" by simp
        ultimately show ?thesis using ih(2) [of "rt_id rt"] m1 [of "rt_id rt"] by simp
      qed
    qed
  qed
qed

lemma add_in_tables_calls:
  assumes "add_in_tables rnd con info failed_ips dcidr hosts s w = (res, w')"
  shows "makes_calls (\<lambda>c. \<exists>(t, l) \<in> set s. dcidr \<notin> set l
            \<and> (\<exists>i e. c = CreateRoute t dcidr i e)) w w'"
  using assms
proof (induction s arbitrary: w)
  case Nil
  then show ?case by (simp add: makes_calls_refl)
next
  case (Cons tl s)
  obtain t l where tl: "tl = (t, l)" by (cases tl)
  show ?case
  proof (cases "dcidr \<in> set l")
    case True
    with Cons.prems tl
    have "add_in_tables rnd con info failed_ips dcidr hosts s w = (res, w')" by simp
    from Cons.IH [OF this] show ?thesis by (rule makes_calls_mono) auto
  next
    case False
    obtain res1 w1 where a: "add_new_route rnd hosts failed_ips info con t dcidr w = (res1, w1)"
      by (cases "add_new_route rnd hosts failed_ips info con t dcidr w")
    have m1: "makes_calls (\<lambda>c. \<exists>(t, l) \<in> set (tl # s). dcidr \<notin> set l
            \<and> (\<exists>i e. c = CreateRoute t dcidr i e)) w w1"
    proof (rule disjE [OF add_new_route_calls [OF a]])
      assume "calls w1 = calls w"
      then show ?thesis by (rule makes_calls_refl)
    next
      assume "\<exists>i e. calls w1 = calls w @ [CreateRoute t dcidr i e]"
      then obtain i e where "calls w1 = calls w @ [CreateRoute t dcidr i e]" by blast
      then show ?thesis
        by (rule makes_calls_one) (use False tl in auto)
    qed
    show ?thesis
    proof (cases res1)
      case (Inl e)
      with a Cons.prems tl False have "w' = w1" by simp
      with m1 show ?thesis by simp
    next
      case (Inr u)
      with a Cons.prems tl False
      have "add_in_tables rnd con info failed_ips dcidr hosts s w1 = (res, w')" by simp
      from Cons.IH [OF this]
      have "makes_calls (\<lambda>c. \<exists>(t, l) \<in> set (tl # s). dcidr \<notin> set l
            \<and> (\<exists>i e. c = CreateRoute t dcidr i e)) w1 w'"
        by (rule makes_calls_mono) auto
      with m1 show ?thesis by (rule makes_calls_trans)
    qed
  qed
qed

lemma add_missing_routes_calls:
  assumes "add_missing_routes rnd con info failed_ips spec s w = (res, w')"
  shows "makes_calls (\<lambda>c. \<exists>(p, hosts) \<in> set spec. \<exists>(t, l) \<in> set s. p \<notin> set l
            \<and> (\<exists>i e. c = CreateRoute t p i e)) w w'"
  using assms
proof (induction spec arbitrary: w)
  case Nil
  then show ?case by (simp add: makes_calls_refl)
next
  case (Cons ph spec)
  obtain p hosts where ph: "ph = (p, hosts)" by (cases ph)
  obtain res1 w1 where a: "add_in_tables rnd con info failed_ips p hosts s w = (res1, w1)"
    by (cases "add_in_tables rnd con info failed_ips p hosts s w")
  have m1: "makes_calls (\<lambda>c. \<exists>(p, hosts) \<in> set (ph # spec). \<exists>(t, l) \<in> set s. p \<notin> set l
            \<and> (\<exists>i e. c = CreateRoute t p i e)) w w1"
    by (rule makes_calls_mono [OF add_in_tables_calls [OF a]]) (auto simp: ph)
  show ?case
  proof (cases res1)
    case (Inl e)
    with a Cons.prems ph have "w' = w1" by simp
    with m1 show ?thesis by simp
  next
    case (Inr u)
    with a Cons.prems ph
    have "add_missing_routes rnd con info failed_ips spec s w1 = (res, w')" by simp
    from Cons.IH [OF this]
    have "makes_calls (\<lambda>c. \<exists>(p, hosts) \<in> set (ph # spec). \<exists>(t, l) \<in> set s. p \<notin> set l
            \<and> (\<exists>i e. c = CreateRoute t p i e)) w1 w'"
      by (rule makes_calls_mono) auto
    with m1 show ?thesis by (rule makes_calls_trans)
  qed
qed

lemma makes_calls_logging:
  "makes_calls P (logging l m w) w' \<Longrightarrow> makes_calls P w w'"
  by (simp add: makes_calls_def logging_def)

text \<open>
  Claim C8. A foreign route (no target instance) is only detected: the loop body records
  its prefix as seen for the table and returns, with no provider call, no cache write
  and no read of any other attribute. In a whole run of \<^verbatim>\<open>process_route_spec_config\<close>,
  whatever the route spec, the failed set and the provider's answers, no create, replace
  or delete call is made for the table and prefix of a foreign route, in a snapshot whose
  route tables have distinct identifiers and where no instance-attached route of the same
  table has the same prefix (a route call names a route by its table and prefix).
\<close>

theorem foreign_route_untouched:
  assumes "rt \<in> set (route_tables info)"
    and "r \<in> set (routes rt)"
    and "instance_id r = None"
    and "distinct (map rt_id (route_tables info))"
    and "\<forall>r' \<in> set (routes rt). instance_id r' \<noteq> None \<longrightarrow>
           destination_cidr_block r' \<noteq> destination_cidr_block r"
    and "process_route_spec_config rnd con info route_spec failed_ips w = (res, w')"
  shows "process_route rnd con info route_spec failed_ips rt r routes_in_rts w1
           = (Inr (AList.map_entry (rt_id rt) (\<lambda>l. l @ [destination_cidr_block r]) routes_in_rts),
              w1)
    \<and> (\<exists>cs. calls w' = calls w @ cs
          \<and> (\<forall>c \<in> set cs. route_key c \<noteq> Some (rt_id rt, destination_cidr_block r)))"
proof
  show "process_route rnd con info route_spec failed_ips rt r routes_in_rts w1
           = (Inr (AList.map_entry (rt_id rt) (\<lambda>l. l @ [destination_cidr_block r]) routes_in_rts),
              w1)"
    using assms(3) by (rule process_route_foreign)
next
  let ?P = "\<lambda>c. route_key c \<noteq> Some (rt_id rt, destination_cidr_block r)"
  let ?w0 = "logging DEBUG
                (if failed_ips \<noteq> {} then ''Route spec processing. Failed IPs''
                 else ''Route spec processing. No failed IPs.'') w"
  obtain res1 w2 where p: "process_tables rnd con info route_spec failed_ips (route_tables info) []
      ?w0 = (res1, w2)"
    by (cases "process_tables rnd con info route_spec failed_ips (route_tables info) [] ?w0")
  have same_table: "rt' = rt" if "rt' \<in> set (route_tables info)" "rt_id rt' = rt_id rt" for rt'
    using that assms(1,4) by (meson distinct_map inj_onD)
  have m1: "makes_calls ?P ?w0 w2"
  proof (rule makes_calls_mono [OF process_tables_calls [OF p]])
    fix c
    assume "\<exists>rt' \<in> set (route_tables info). \<exists>r' \<in> set (routes rt'). instance_id r' \<noteq> None
            \<and> route_key c = Some (rt_id rt', destination_cidr_block r')"
    then obtain rt' r' where h: "rt' \<in> set (route_tables info)" "r' \<in> set (routes rt')"
      "instance_id r' \<noteq> None" "route_key c = Some (rt_id rt', destination_cidr_block r')"
      by blast
    show "?P c"
    proof
      assume "route_key c = Some (rt_id rt, destination_cidr_block r)"
      with h(4) have e: "rt_id rt' = rt_id rt" "destination_cidr_block r' = destination_cidr_block r"
        by simp_all
      from same_table [OF h(1) e(1)] h(2) have "r' \<in> set (routes rt)" by simp
      with assms(5) h(3) e(2) show False by blast
    qed
  qed
  have "makes_calls ?P ?w0 w'"
  proof (cases res1)
    case (Inl e)
    with p assms(6) have "w' = w2" by (simp add: process_route_spec_config_def)
    with m1 show ?thesis by simp
  next
    case (Inr s)
    with p assms(6)
    have a: "add_missing_routes rnd con info failed_ips route_spec s w2 = (res, w')"
      by (simp add: process_route_spec_config_def)
    from process_tables_seen [OF p [unfolded Inr]] assms(1,4)
    have d: "distinct (map fst s)"
      and seen: "map_of s (rt_id rt) = Some (map destination_cidr_block (routes rt))"
      by auto
    have "makes_calls ?P w2 w'"
    proof (rule makes_calls_mono [OF add_missing_routes_calls [OF a]])
      fix c
      assume "\<exists>(p, hosts) \<in> set route_spec. \<exists>(t, l) \<in> set s. p \<notin> set l
            \<and> (\<exists>i e. c = CreateRoute t p i e)"
      then obtain p t l i e where h: "(t, l) \<in> set s" "p \<notin> set l" "c = CreateRoute t p i e"
        by blast
      show "?P c"
      proof
        assume "route_key c = Some (rt_id rt, destination_cidr_block r)"
        with h(3) have e: "t = rt_id rt" "p = destination_cidr_block r" by simp_all
        from h(1) d have "map_of s t = Some l" by simp
        with seen e(1) have "l = map destination_cidr_block (routes rt)" by simp
        with assms(2) h(2) e(2) show False by simp
      qed
    qed
    with m1 show ?thesis by (rule makes_calls_trans)
  qed
  then have "makes_calls ?P w w'" by (rule makes_calls_logging)
  then show "\<exists>cs. calls w' = calls w @ cs
          \<and> (\<forall>c \<in> set cs. route_key c \<noteq> Some (rt_id rt, destination_cidr_block r))"
    by (simp add: makes_calls_def)
qed

theorem foreign_route_untouched_witness:
  "process_route_spec_config (\<lambda>k. 0) con_ok (snapshot [table1 [route_foreign, route_old]])
       spec2 {} w0
     = (Inr (), w0\<lparr>calls := [DeleteRoute ''rt-1'' ''10.0.2.0/24'',
                              CreateRoute ''rt-1'' ''10.0.5.0/24'' ''i-a'' ''eni-a''],
          CURRENT_STATE := [''10.0.5.0/24'' \<mapsto> (''10.0.0.5'', ''i-a'', ''eni-a'')],
          log := [(DEBUG, ''Route spec processing. No failed IPs.''),
                  (INFO, ''--- route not in spec, deleting in RT''),
                  (INFO, ''--- adding route in RT'')],
          draws := 1\<rparr>)
   \<and> (\<exists>cs. [DeleteRoute ''rt-1'' ''10.0.2.0/24'',
              CreateRoute ''rt-1'' ''10.0.5.0/24'' ''i-a'' ''eni-a''] = calls w0 @ cs
          \<and> (\<forall>c \<in> set cs. route_key c \<noteq> Some (''rt-1'', ''10.0.1.0/24'')))"
proof -
  have run: "process_route_spec_config (\<lambda>k. 0) con_ok
       (snapshot [table1 [route_foreign, route_old]]) spec2 {} w0
     = (Inr (), w0\<lparr>calls := [DeleteRoute ''rt-1'' ''10.0.2.0/24'',
                              CreateRoute ''rt-1'' ''10.0.5.0/24'' ''i-a'' ''eni-a''],
          CURRENT_STATE := [''10.0.5.0/24'' \<mapsto> (''10.0.0.5'', ''i-a'', ''eni-a'')],
          log := [(DEBUG, ''Route spec processing. No failed IPs.''),
                  (INFO, ''--- route not in spec, deleting in RT''),
                  (INFO, ''--- adding route in RT'')],
          draws := 1\<rparr>)"
    by (simp add: example_defs run_defs spec2_def route_foreign_def route_old_def)
  from foreign_route_untouched [where rt = "table1 [route_foreign, route_old]"
      and r = route_foreign and info = "snapshot [table1 [route_foreign, route_old]]", OF _ _ _ _ _ run]
  show ?thesis using run
    by (simp add: snapshot_def table1_def route_foreign_def route_old_def)
qed

subsection \<open>Missing routes\<close>

lemma add_new_route_creates:
  assumes healthy: "\<exists>a \<in> set hosts. a \<notin> failed_ips"
    and resolvable: "\<forall>a \<in> set hosts. a \<notin> failed_ips \<longrightarrow>
          a \<noteq> [] \<and> (\<exists>i e. find_instance_and_emi_by_ip info a = Inr (i, e))"
    and provider: "\<forall>h c e. route_call con h c = Inl e \<longrightarrow> e = VpcRouteSetError"
  shows "\<exists>w' c. add_new_route rnd hosts failed_ips info con t p w = (Inr (), w')
    \<and> calls w' = calls w @ [c] \<and> creates_for info failed_ips hosts c (t, p)
    \<and> draws w' = Suc (draws w)"
proof -
  obtain r w1 where ch: "choose_from_hosts rnd hosts failed_ips w = (r, w1)"
    by (cases "choose_from_hosts rnd hosts failed_ips w")
  from healthy have ne: "hosts \<noteq> []" by auto
  with ch have w1: "w1 = w\<lparr>draws := Suc (draws w)\<rparr>"
    using choose_from_hosts_world [of rnd hosts failed_ips w] by simp
  show ?thesis
  proof (cases rule: choose_from_hosts_cases [of rnd hosts failed_ips w])
    case none
    with healthy show ?thesis by auto
  next
    case (some a)
    with ch have r: "r = Inr (Some a)" by simp
    from some resolvable obtain i e where a: "a \<noteq> []"
      and f: "find_instance_and_emi_by_ip info a = Inr (i, e)" by blast
    let ?c = "CreateRoute t p (inst_id i) (eni_id e)"
    have cf: "creates_for info failed_ips hosts ?c (t, p)"
      using some f by (auto simp: creates_for_def)
    show ?thesis
    proof (cases "route_call con (calls w) ?c")
      case (Inl x)
      with provider have "x = VpcRouteSetError" by blast
      with Inl ch r a f w1
      have "add_new_route rnd hosts failed_ips info con t p w
          = (Inr (), logging ERROR ''*** failed to add route in RT''
               (record_call ?c (logging INFO ''--- adding route in RT'' w1)))"
        by (simp add: add_new_route_def add_new_route_try_def except_VpcRouteSetError_def invoke_def
              logging_def)
      with cf w1 show ?thesis by (simp add: logging_def record_call_def)
    next
      case (Inr status)
      with ch r a f w1
      have "add_new_route rnd hosts failed_ips info con t p w
          = (Inr (), (record_call ?c (logging INFO ''--- adding route in RT'' w1))
               \<lparr>CURRENT_STATE := (CURRENT_STATE w1)(p \<mapsto> (a, inst_id i, eni_id e))\<rparr>)"
        by (simp add: add_new_route_def add_new_route_try_def except_VpcRouteSetError_def invoke_def
              logging_def record_call_def)
      with cf w1 show ?thesis by (simp add: logging_def record_call_def)
    qed
  qed
qed

lemma add_in_tables_creates:
  assumes healthy: "\<exists>a \<in> set hosts. a \<notin> failed_ips"
    and resolvable: "\<forall>a \<in> set hosts. a \<notin> failed_ips \<longrightarrow>
          a \<noteq> [] \<and> (\<exists>i e. find_instance_and_emi_by_ip info a = Inr (i, e))"
    and provider: "\<forall>h c e. route_call con h c = Inl e \<longrightarrow> e = VpcRouteSetError"
  shows "\<exists>w' cs. add_in_tables rnd con info failed_ips p hosts s w = (Inr (), w')
    \<and> calls w' = calls w @ cs
    \<and> list_all2 (creates_for info failed_ips hosts) cs
         (map (\<lambda>(t, l). (t, p)) (filter (\<lambda>(t, l). p \<notin> set l) s))
    \<and> draws w' = draws w + length (filter (\<lambda>(t, l). p \<notin> set l) s)"
proof (induction s arbitrary: w)
  case Nil
  show ?case by simp
next
  case (Cons tl s)
  obtain t l where tl: "tl = (t, l)" by (cases tl)
  show ?case
  proof (cases "p \<in> set l")
    case True
    with Cons.IH [of w] tl show ?thesis by simp
  next
    case False
    from add_new_route_creates [OF assms, of rnd t p w]
    obtain w1 c where a: "add_new_route rnd hosts failed_ips info con t p w = (Inr (), w1)"
      "calls w1 = calls w @ [c]" "creates_for info failed_ips hosts c (t, p)"
      "draws w1 = Suc (draws w)"
      by blast
    from Cons.IH [of w1]
    obtain w' cs where b: "add_in_tables rnd con info failed_ips p hosts s w1 = (Inr (), w')"
      "calls w' = calls w1 @ cs"
      "list_all2 (creates_for info failed_ips hosts) cs
         (map (\<lambda>(t, l). (t, p)) (filter (\<lambda>(t, l). p \<notin> set l) s))"
      "draws w' = draws w1 + length (filter (\<lambda>(t, l). p \<notin> set l) s)"
      by blast
    have "add_in_tables rnd con info failed_ips p hosts (tl # s) w = (Inr (), w')
      \<and> calls w' = calls w @ (c # cs)
      \<and> list_all2 (creates_for info failed_ips hosts) (c # cs)
           (map (\<lambda>(t, l). (t, p)) (filter (\<lambda>(t, l). p \<notin> set l) (tl # s)))
      \<and> draws w' = draws w + length (filter (\<lambda>(t, l). p \<notin> set l) (tl # s))"
      using a b False tl by simp
    then show ?thesis by blast
  qed
qed

lemma distinct_missing_pairs:
  assumes "distinct (map fst route_spec)" and "distinct (map fst routes_in_rts)"
  shows "distinct (missing_pairs route_spec routes_in_rts)"
  using assms(1)
proof (induction route_spec)
  case Nil
  show ?case by (simp add: missing_pairs_def)
next
  case (Cons ph spec)
  obtain p hosts where ph: "ph = (p, hosts)" by (cases ph)
  have d1: "distinct (map (\<lambda>(t, l). (t, p)) (filter (\<lambda>(t, l). p \<notin> set l) routes_in_rts))"
  proof -
    have "distinct (map fst (filter (\<lambda>(t, l). p \<notin> set l) routes_in_rts))"
      using assms(2) by (rule distinct_map_filter)
    moreover have "map fst (map (\<lambda>(t, l). (t, p)) (filter (\<lambda>(t, l). p \<notin> set l) routes_in_rts))
        = map fst (filter (\<lambda>(t, l). p \<notin> set l) routes_in_rts)"
      by (simp add: case_prod_beta comp_def)
    ultimately show ?thesis by (metis distinct_map)
  qed
  have d2: "snd ` set (missing_pairs spec routes_in_rts) \<subseteq> fst ` set spec"
    by (auto simp: missing_pairs_def) force
  have d3: "snd ` set (map (\<lambda>(t, l). (t, p)) (filter (\<lambda>(t, l). p \<notin> set l) routes_in_rts)) \<subseteq> {p}"
    by auto
  from Cons.prems ph have "p \<notin> fst ` set spec" by simp
  with d2 d3 have "set (map (\<lambda>(t, l). (t, p)) (filter (\<lambda>(t, l). p \<notin> set l) routes_in_rts))
      \<inter> set (missing_pairs spec routes_in_rts) = {}"
    by (auto simp: image_subset_iff) force
  moreover from Cons have "distinct (missing_pairs spec routes_in_rts)" by simp
  moreover have "missing_pairs (ph # spec) routes_in_rts
      = map (\<lambda>(t, l). (t, p)) (filter (\<lambda>(t, l). p \<notin> set l) routes_in_rts)
        @ missing_pairs spec routes_in_rts"
    by (simp add: missing_pairs_def ph)
  ultimately show ?case using d1 by simp
qed

lemma add_missing_routes_creates:
  assumes healthy: "\<forall>(p, hosts) \<in> set spec. \<exists>a \<in> set hosts. a \<notin> failed_ips"
    and resolvable: "\<forall>(p, hosts) \<in> set spec. \<forall>a \<in> set hosts. a \<notin> failed_ips \<longrightarrow>
          a \<noteq> [] \<and> (\<exists>i e. find_instance_and_emi_by_ip info a = Inr (i, e))"
    and provider: "\<forall>h c e. route_call con h c = Inl e \<longrightarrow> e = VpcRouteSetError"
  shows "\<exists>w' cs. add_missing_routes rnd con info failed_ips spec s w = (Inr (), w')
    \<and> calls w' = calls w @ cs
    \<and> list_all2 (\<lambda>c tp. \<exists>hosts. (snd tp, hosts) \<in> set spec
                     \<and> creates_for info failed_ips hosts c tp) cs (missing_pairs spec s)
    \<and> draws w' = draws w + length (missing_pairs spec s)"
  using healthy resolvable
proof (induction spec arbitrary: w)
  case Nil
  show ?case by (simp add: missing_pairs_def)
next
  case (Cons ph spec)
  obtain p hosts where ph: "ph = (p, hosts)" by (cases ph)
  let ?here = "map (\<lambda>(t, l). (t, p)) (filter (\<lambda>(t, l). p \<notin> set l) s)"
  have mp: "missing_pairs (ph # spec) s = ?here @ missing_pairs spec s"
    by (simp add: missing_pairs_def ph)
  from Cons.prems ph have h: "\<exists>a \<in> set hosts. a \<notin> failed_ips"
    and r: "\<forall>a \<in> set hosts. a \<notin> failed_ips \<longrightarrow>
          a \<noteq> [] \<and> (\<exists>i e. find_instance_and_emi_by_ip info a = Inr (i, e))"
    by auto
  from add_in_tables_creates [OF h r provider, of rnd p s w]
  obtain w1 cs1 where a: "add_in_tables rnd con info failed_ips p hosts s w = (Inr (), w1)"
    "calls w1 = calls w @ cs1"
    "list_all2 (creates_for info failed_ips hosts) cs1 ?here"
    "draws w1 = draws w + length (filter (\<lambda>(t, l). p \<notin> set l) s)"
    by blast
  from Cons.prems have "\<forall>(p, hosts) \<in> set spec. \<exists>a \<in> set hosts. a \<notin> failed_ips"
    and "\<forall>(p, hosts) \<in> set spec. \<forall>a \<in> set hosts. a \<notin> failed_ips \<longrightarrow>
          a \<noteq> [] \<and> (\<exists>i e. find_instance_and_emi_by_ip info a = Inr (i, e))"
    by auto
  from Cons.IH [OF this, of w1]
  obtain w' cs2 where b: "add_missing_routes rnd con info failed_ips spec s w1 = (Inr (), w')"
    "calls w' = calls w1 @ cs2"
    "list_all2 (\<lambda>c tp. \<exists>hosts. (snd tp, hosts) \<in> set spec
                     \<and> creates_for info failed_ips hosts c tp) cs2 (missing_pairs spec s)"
    "draws w' = draws w1 + length (missing_pairs spec s)"
    by blast
  let ?R = "\<lambda>c tp. \<exists>hosts. (snd tp, hosts) \<in> set (ph # spec)
                     \<and> creates_for info failed_ips hosts c tp"
  have "list_all2 ?R cs1 ?here"
    by (rule list.rel_mono_strong [OF a(3)]) (auto simp: ph)
  moreover have "list_all2 ?R cs2 (missing_pairs spec s)"
    by (rule list_all2_mono [OF b(3)]) auto
  ultimately have "list_all2 ?R (cs1 @ cs2) (missing_pairs (ph # spec) s)"
    unfolding mp by (rule list_all2_appendI)
  moreover have "add_missing_routes rnd con info failed_ips (ph # spec) s w = (Inr (), w')"
    using a(1) b(1) ph by simp
  moreover have "calls w' = calls w @ (cs1 @ cs2)" using a(2) b(2) by simp
  moreover have "draws w' = draws w + length (missing_pairs (ph # spec) s)"
    using a(4) b(4) by (simp add: mp)
  ultimately show ?case by blast
qed

text \<open>
  Claim C5, as the code has it. In the second pass, when every prefix of the route spec
  has a candidate that has not failed, every candidate that has not failed is a
  non-empty address of an interface of the snapshot, and a route call raises nothing but
  \<^verbatim>\<open>VpcRouteSetError\<close>: the pass returns normally and makes exactly one create call for
  every pair of a table and a prefix not recorded as seen in the first pass, in order,
  each to a candidate of the prefix that has not failed and each with a random draw of
  its own; it makes no other call. A prefix recorded as seen, also by a foreign route,
  gets no route.
\<close>

theorem missing_routes_created:
  assumes "distinct (map fst route_spec)"
    and "distinct (map fst routes_in_rts)"
    and "\<forall>(p, hosts) \<in> set route_spec. \<exists>a \<in> set hosts. a \<notin> failed_ips"
    and "\<forall>(p, hosts) \<in> set route_spec. \<forall>a \<in> set hosts. a \<notin> failed_ips \<longrightarrow>
          a \<noteq> [] \<and> (\<exists>i e. find_instance_and_emi_by_ip info a = Inr (i, e))"
    and "\<forall>h c e. route_call con h c = Inl e \<longrightarrow> e = VpcRouteSetError"
  shows "\<exists>w' cs. add_missing_routes rnd con info failed_ips route_spec routes_in_rts w = (Inr (), w')
    \<and> calls w' = calls w @ cs
    \<and> list_all2 (\<lambda>c (t, p). \<exists>hosts a i e. (p, hosts) \<in> set route_spec
           \<and> a \<in> set hosts \<and> a \<notin> failed_ips
           \<and> find_instance_and_emi_by_ip info a = Inr (i, e)
           \<and> c = CreateRoute t p (inst_id i) (eni_id e))
         cs (missing_pairs route_spec routes_in_rts)
    \<and> distinct (missing_pairs route_spec routes_in_rts)
    \<and> set (missing_pairs route_spec routes_in_rts)
         = {(t, p). \<exists>hosts l. (p, hosts) \<in> set route_spec \<and> (t, l) \<in> set routes_in_rts \<and> p \<notin> set l}
    \<and> draws w' = draws w + length (missing_pairs route_spec routes_in_rts)"
proof -
  from add_missing_routes_creates [OF assms(3,4,5), of rnd routes_in_rts w]
  obtain w' cs where a: "add_missing_routes rnd con info failed_ips route_spec routes_in_rts w
      = (Inr (), w')"
    "calls w' = calls w @ cs"
    "list_all2 (\<lambda>c tp. \<exists>hosts. (snd tp, hosts) \<in> set route_spec
                     \<and> creates_for info failed_ips hosts c tp) cs
       (missing_pairs route_spec routes_in_rts)"
    "draws w' = draws w + length (missing_pairs route_spec routes_in_rts)"
    by blast
  have "list_all2 (\<lambda>c (t, p). \<exists>hosts a i e. (p, hosts) \<in> set route_spec
           \<and> a \<in> set hosts \<and> a \<notin> failed_ips
           \<and> find_instance_and_emi_by_ip info a = Inr (i, e)
           \<and> c = CreateRoute t p (inst_id i) (eni_id e))
         cs (missing_pairs route_spec routes_in_rts)"
    by (rule list_all2_mono [OF a(3)]) (auto simp: creates_for_def, blast)
  moreover have "set (missing_pairs route_spec routes_in_rts)
         = {(t, p). \<exists>hosts l. (p, hosts) \<in> set route_spec \<and> (t, l) \<in> set routes_in_rts \<and> p \<notin> set l}"
    by (auto simp: missing_pairs_def) force
  ultimately show ?thesis
    using a(1,2,4) distinct_missing_pairs [OF assms(1,2)] by blast
qed

theorem missing_routes_created_witness:
  "add_missing_routes (\<lambda>k. k) con_ok (snapshot []) {} spec3
       [(''rt-1'', []), (''rt-2'', [''10.0.9.0/24''])] w0
     = (Inr (), w0\<lparr>calls := [CreateRoute ''rt-1'' ''10.0.1.0/24'' ''i-a'' ''eni-a'',
                              CreateRoute ''rt-2'' ''10.0.1.0/24'' ''i-b'' ''eni-b''],
          CURRENT_STATE := [''10.0.1.0/24'' \<mapsto> (''10.0.0.6'', ''i-b'', ''eni-b'')],
          log := [(INFO, ''--- adding route in RT''), (INFO, ''--- adding route in RT'')],
          draws := 2\<rparr>)
   \<and> missing_pairs spec3 [(''rt-1'', []), (''rt-2'', [''10.0.9.0/24''])]
     = [(''rt-1'', ''10.0.1.0/24''), (''rt-2'', ''10.0.1.0/24'')]"
  using missing_routes_created [where route_spec = spec3
      and routes_in_rts = "[(''rt-1'', []), (''rt-2'', [''10.0.9.0/24''])]"
      and failed_ips = "{}" and info = "snapshot []" and con = con_ok and rnd = "\<lambda>k. k"
      and w = w0]
  by (simp add: example_defs run_defs spec3_def missing_pairs_def)

text \<open>
  Two runs with every candidate healthy and no route call made. In the first the only
  route of the table for the prefix of the spec is foreign: the prefix is recorded as
  seen, so the table is left without an instance-attached route for it. In the second
  the candidate is the address of no interface of the snapshot: the lookup fails, the
  error is logged and no create call is made.
\<close>

theorem foreign_prefix_not_created:
  "process_route_spec_config (\<lambda>k. 0) con_ok (snapshot [table1 [route_foreign]]) spec1 {} w0
     = (Inr (), w0\<lparr>log := [(DEBUG, ''Route spec processing. No failed IPs.'')]\<rparr>)
   \<and> map instance_id (routes (table1 [route_foreign])) = [None]
   \<and> process_route_spec_config (\<lambda>k. 0) con_ok (snapshot [table1 []])
       [(''10.0.1.0/24'', [''10.0.0.9''])] {} w0
     = (Inr (), w0\<lparr>log := [(DEBUG, ''Route spec processing. No failed IPs.''),
                            (ERROR, ''*** failed to add route in RT'')],
          draws := 1\<rparr>)"
  by (simp add: example_defs run_defs spec1_def route_foreign_def)

end
